theory Spec2Isabelle
  imports Main
begin

section \<open>Strings and values of the host language\<close>

text \<open>
  The server is a TypeScript program (\<^verbatim>\<open>src/index.ts\<close>): a handler of tool calls that
  dispatches on the name of the tool to one of six methods, each of which sends requests
  to the remote service through \<^verbatim>\<open>makeJiraRequest\<close> and renders the answer as text.
  This theory embeds the handler, the six methods, the request builder and the
  extractor of acceptance criteria with its regular expressions. The static catalog of
  tools and the start of the process are not embedded.

  Strings are modelled as \<^typ>\<open>string\<close>. A \<^typ>\<open>char\<close> below 128 is an ASCII
  character; a character outside ASCII is carried as bytes above 127 (as the two marks
  that open the lines of a report are). The regular expressions and \<^verbatim>\<open>trim\<close> look at
  single characters: for them a byte above 127 is neither a letter nor white space.
  The case mapping of a whole string, \<^verbatim>\<open>String.prototype.toLowerCase\<close>, follows the
  Unicode tables of the engine: it is a collaborator of the server (see \<open>JiraServer\<close>),
  not a definition of this theory.
\<close>

definition nl :: char where
  "nl = CHR 0x0A"

definition lower_letters :: string where
  "lower_letters = ''abcdefghijklmnopqrstuvwxyz''"

definition upper_letters :: string where
  "upper_letters = ''ABCDEFGHIJKLMNOPQRSTUVWXYZ''"

definition toUpperChar :: "char \<Rightarrow> char" where
  "toUpperChar c = (case map_of (zip lower_letters upper_letters) c of None \<Rightarrow> c | Some u \<Rightarrow> u)"

definition toLowerChar :: "char \<Rightarrow> char" where
  "toLowerChar c = (case map_of (zip upper_letters lower_letters) c of None \<Rightarrow> c | Some l \<Rightarrow> l)"

text \<open>Lower case on the letters A to Z, every other character unchanged: what
  \<^verbatim>\<open>String.prototype.toLowerCase\<close> gives on a string of ASCII characters.\<close>

definition ascii_toLowerCase :: "string \<Rightarrow> string" where
  "ascii_toLowerCase s = map toLowerChar s"

text \<open>The characters \<^verbatim>\<open>\s\<close> matches and \<^verbatim>\<open>trim\<close> strips: tab, line feed, vertical
  tab, form feed, carriage return, space.\<close>

definition isWhiteSpace :: "char \<Rightarrow> bool" where
  "isWhiteSpace c = (c \<in> set [CHR 0x09, CHR 0x0A, CHR 0x0B, CHR 0x0C, CHR 0x0D, CHR '' ''])"

definition isLineTerminator :: "char \<Rightarrow> bool" where
  "isLineTerminator c = (c = CHR 0x0A \<or> c = CHR 0x0D)"

text \<open>\<^verbatim>\<open>String.prototype.trim\<close>.\<close>

definition trim :: "string \<Rightarrow> string" where
  "trim s = rev (dropWhile isWhiteSpace (rev (dropWhile isWhiteSpace s)))"

text \<open>\<^verbatim>\<open>String.prototype.includes\<close>: \<open>str_includes s sub\<close> is \<^verbatim>\<open>s.includes(sub)\<close>.\<close>

fun str_includes :: "string \<Rightarrow> string \<Rightarrow> bool" where
  "str_includes [] sub = (sub = [])"
| "str_includes (c # cs) sub = (take (length sub) (c # cs) = sub \<or> str_includes cs sub)"

text \<open>\<^verbatim>\<open>Array.prototype.join\<close> on an array of strings.\<close>

fun join :: "string \<Rightarrow> string list \<Rightarrow> string" where
  "join sep [] = []"
| "join sep [x] = x"
| "join sep (x # y # ys) = x @ sep @ join sep (y # ys)"

text \<open>The decimal numeral of a number, as a template literal prints it.\<close>

definition digit_char :: "nat \<Rightarrow> char" where
  "digit_char d = ''0123456789'' ! d"

fun show_nat :: "nat \<Rightarrow> string" where
  "show_nat n = (if n < 10 then [digit_char n] else show_nat (n div 10) @ [digit_char (n mod 10)])"

definition show_int :: "int \<Rightarrow> string" where
  "show_int i = (if i < 0 then ''-'' @ show_nat (nat (- i)) else show_nat (nat i))"

text \<open>
  Values that travel through the program: the argument bag of a tool call, the bodies the
  remote service returns, and the bodies the server sends. A number is an integer here
  (the program computes with none: it tests \<^verbatim>\<open>maxResults\<close> for truthiness and a
  length against 0); an object is its list of properties in insertion order, the first
  binding of a key being the one a read returns.
\<close>

datatype json =
    JUndefined
  | JNull
  | JBool bool
  | JNum int
  | JStr string
  | JArr "json list"
  | JObj "(string \<times> json) list"

text \<open>What a \<^verbatim>\<open>throw\<close> or a rejected promise carries. \<open>Error\<close> and \<open>TypeError\<close> are
  instances of \<^verbatim>\<open>Error\<close> with their message (the wording of a \<open>TypeError\<close> is the
  engine's); \<open>Thrown\<close> is any other value.\<close>

datatype thrown =
    Error string
  | TypeError string
  | Thrown json

text \<open>Truthiness: what \<^verbatim>\<open>if (v)\<close>, \<^verbatim>\<open>!v\<close>, \<^verbatim>\<open>v || d\<close> and \<^verbatim>\<open>v && w\<close> test.\<close>

fun truthy :: "json \<Rightarrow> bool" where
  "truthy JUndefined = False"
| "truthy JNull = False"
| "truthy (JBool b) = b"
| "truthy (JNum n) = (n \<noteq> 0)"
| "truthy (JStr s) = (s \<noteq> [])"
| "truthy (JArr xs) = True"
| "truthy (JObj kvs) = True"

fun nullish :: "json \<Rightarrow> bool" where
  "nullish JUndefined = True"
| "nullish JNull = True"
| "nullish v = False"

text \<open>\<^verbatim>\<open>a || b\<close> on values.\<close>

definition or_else :: "json \<Rightarrow> json \<Rightarrow> json" where
  "or_else a b = (if truthy a then a else b)"

text \<open>The conversion to a string that a template literal and \<^verbatim>\<open>String(v)\<close> apply.\<close>

fun ToString :: "json \<Rightarrow> string" where
  "ToString JUndefined = ''undefined''"
| "ToString JNull = ''null''"
| "ToString (JBool b) = (if b then ''true'' else ''false'')"
| "ToString (JNum n) = show_int n"
| "ToString (JStr s) = s"
| "ToString (JArr xs) = join '','' (map (\<lambda>x. if nullish x then [] else ToString x) xs)"
| "ToString (JObj kvs) = ''[object Object]''"

text \<open>
  Reading a property of a value that is neither \<^verbatim>\<open>undefined\<close> nor \<^verbatim>\<open>null\<close>. The
  program reads only names that no built-in prototype defines, except \<^verbatim>\<open>length\<close>,
  which strings and arrays have.
\<close>

fun own_prop :: "json \<Rightarrow> string \<Rightarrow> json" where
  "own_prop (JObj kvs) p = (case map_of kvs p of None \<Rightarrow> JUndefined | Some v \<Rightarrow> v)"
| "own_prop (JStr s) p = (if p = ''length'' then JNum (int (length s)) else JUndefined)"
| "own_prop (JArr xs) p = (if p = ''length'' then JNum (int (length xs)) else JUndefined)"
| "own_prop v p = JUndefined"

text \<open>\<^verbatim>\<open>v.p\<close>: a \<open>TypeError\<close> on \<^verbatim>\<open>undefined\<close> and \<^verbatim>\<open>null\<close>.\<close>

definition get_prop :: "json \<Rightarrow> string \<Rightarrow> thrown + json" where
  "get_prop v p =
     (if nullish v
      then Inl (TypeError (''Cannot read properties of '' @ ToString v @ '' (reading '' @ [CHR 0x27] @ p @ [CHR 0x27] @ '')''))
      else Inr (own_prop v p))"

text \<open>\<^verbatim>\<open>v?.p\<close>.\<close>

definition opt_prop :: "json \<Rightarrow> string \<Rightarrow> json" where
  "opt_prop v p = (if nullish v then JUndefined else own_prop v p)"

text \<open>\<^verbatim>\<open>a === b\<close>. Objects and arrays are compared by identity; the values compared
  in this program come from different messages, so two of them are never the same object.\<close>

fun strict_eq :: "json \<Rightarrow> json \<Rightarrow> bool" where
  "strict_eq JUndefined JUndefined = True"
| "strict_eq JNull JNull = True"
| "strict_eq (JBool a) (JBool b) = (a = b)"
| "strict_eq (JNum a) (JNum b) = (a = b)"
| "strict_eq (JStr a) (JStr b) = (a = b)"
| "strict_eq a b = False"

text \<open>Sequencing of computations that may throw.\<close>

definition bind :: "thrown + 'a \<Rightarrow> ('a \<Rightarrow> thrown + 'b) \<Rightarrow> thrown + 'b" where
  "bind r f = (case r of Inl e \<Rightarrow> Inl e | Inr x \<Rightarrow> f x)"

text \<open>\<^verbatim>\<open>error instanceof Error ? error.message : String(error)\<close>.\<close>

fun error_message :: "thrown \<Rightarrow> string" where
  "error_message (Error msg) = msg"
| "error_message (TypeError msg) = msg"
| "error_message (Thrown v) = ToString v"

section \<open>Regular expressions\<close>

text \<open>
  The regular expressions of the program, with the backtracking semantics of the
  language: a matcher takes a continuation and the rest of the input (the suffix that
  starts at the current position) and returns the rest of the input after the whole
  match, or \<open>None\<close>. Alternatives are tried in order; a greedy quantifier tries one
  more iteration first, a lazy one tries the continuation first; an iteration that
  consumes nothing is rejected.

  The constructors are the constructs the program uses: a literal character, \<^verbatim>\<open>.\<close>,
  \<^verbatim>\<open>\s\<close>, a class \<^verbatim>\<open>[...]\<close> given by its ranges, the empty pattern, sequence,
  alternative \<^verbatim>\<open>|\<close>, the quantifiers \<^verbatim>\<open>?\<close>, \<^verbatim>\<open>*\<close> and \<^verbatim>\<open>*?\<close>, a group
  \<^verbatim>\<open>( )\<close> (no caller reads what it captures), the lookahead \<^verbatim>\<open>(?= )\<close>, and \<^verbatim>\<open>$\<close>,
  which without the flag \<^verbatim>\<open>m\<close> matches at the end of the input only.
\<close>

datatype regex =
    Chr char
  | Dot
  | Space
  | Class "(char \<times> char) list"
  | Eps
  | Seq regex regex
  | Alt regex regex
  | Opt regex
  | Star regex
  | StarLazy regex
  | Group regex
  | Lookahead regex
  | EndAnchor

text \<open>A regular expression literal: its pattern and the flags \<^verbatim>\<open>i\<close> and \<^verbatim>\<open>s\<close>. The
  flag \<^verbatim>\<open>g\<close> selects the operation: \<open>match_all\<close> below is \<^verbatim>\<open>match\<close> with \<^verbatim>\<open>g\<close>,
  \<open>replace_first\<close> is \<^verbatim>\<open>replace\<close> without it.\<close>

record regexp =
  source :: regex
  ignoreCase :: bool
  dotAll :: bool

type_synonym cont = "string \<Rightarrow> string option"
type_synonym matcher = "cont \<Rightarrow> string \<Rightarrow> string option"

definition lit :: "string \<Rightarrow> regex" where
  "lit cs = foldr (\<lambda>c r. Seq (Chr c) r) cs Eps"

definition seqs :: "regex list \<Rightarrow> regex" where
  "seqs rs = foldr Seq rs Eps"

definition canonicalize :: "bool \<Rightarrow> char \<Rightarrow> char" where
  "canonicalize ic c = (if ic then toUpperChar c else c)"

definition in_ranges :: "(char \<times> char) list \<Rightarrow> char \<Rightarrow> bool" where
  "in_ranges rs c =
     list_ex (\<lambda>(lo, hi). (of_char lo :: nat) \<le> of_char c \<and> (of_char c :: nat) \<le> of_char hi) rs"

text \<open>A class matches a character when one of its members has the same canonical form;
  with \<^verbatim>\<open>i\<close> the members to look for are the two cases of the character.\<close>

definition class_matches :: "bool \<Rightarrow> (char \<times> char) list \<Rightarrow> char \<Rightarrow> bool" where
  "class_matches ic rs c =
     (if ic then in_ranges rs (toUpperChar c) \<or> in_ranges rs (toLowerChar c) else in_ranges rs c)"

definition char_matcher :: "(char \<Rightarrow> bool) \<Rightarrow> matcher" where
  "char_matcher P k s = (case s of [] \<Rightarrow> None | c # cs \<Rightarrow> if P c then k cs else None)"

text \<open>The quantifiers \<^verbatim>\<open>*\<close> and \<^verbatim>\<open>*?\<close>. Every iteration consumes at least one
  character, so the number of iterations is bounded by the length of the rest of the
  input; the bound is the second argument, and it is never reached (see
  \<open>compile_Star_unfold\<close> and \<open>compile_StarLazy_unfold\<close> below).\<close>

primrec repeat_greedy :: "matcher \<Rightarrow> nat \<Rightarrow> matcher" where
  "repeat_greedy ma 0 k s = k s"
| "repeat_greedy ma (Suc n) k s =
     (case ma (\<lambda>s'. if length s' = length s then None else repeat_greedy ma n k s') s of
        Some r \<Rightarrow> Some r
      | None \<Rightarrow> k s)"

primrec repeat_lazy :: "matcher \<Rightarrow> nat \<Rightarrow> matcher" where
  "repeat_lazy ma 0 k s = k s"
| "repeat_lazy ma (Suc n) k s =
     (case k s of
        Some r \<Rightarrow> Some r
      | None \<Rightarrow> ma (\<lambda>s'. if length s' = length s then None else repeat_lazy ma n k s') s)"

primrec compile :: "bool \<Rightarrow> bool \<Rightarrow> regex \<Rightarrow> matcher" where
  "compile ic da (Chr c) k s = char_matcher (\<lambda>x. canonicalize ic x = canonicalize ic c) k s"
| "compile ic da Dot k s = char_matcher (\<lambda>x. da \<or> \<not> isLineTerminator x) k s"
| "compile ic da Space k s = char_matcher isWhiteSpace k s"
| "compile ic da (Class rs) k s = char_matcher (class_matches ic rs) k s"
| "compile ic da Eps k s = k s"
| "compile ic da (Seq a b) k s = compile ic da a (\<lambda>s'. compile ic da b k s') s"
| "compile ic da (Alt a b) k s =
     (case compile ic da a k s of Some r \<Rightarrow> Some r | None \<Rightarrow> compile ic da b k s)"
| "compile ic da (Opt a) k s =
     (case compile ic da a (\<lambda>s'. if length s' = length s then None else k s') s of
        Some r \<Rightarrow> Some r
      | None \<Rightarrow> k s)"
| "compile ic da (Star a) k s = repeat_greedy (compile ic da a) (Suc (length s)) k s"
| "compile ic da (StarLazy a) k s = repeat_lazy (compile ic da a) (Suc (length s)) k s"
| "compile ic da (Group a) k s = compile ic da a k s"
| "compile ic da (Lookahead a) k s =
     (case compile ic da a Some s of Some r \<Rightarrow> k s | None \<Rightarrow> None)"
| "compile ic da EndAnchor k s = (if s = [] then k s else None)"

text \<open>The leftmost match at or after the start of \<open>s\<close>: the index where it starts and
  its length. Every start position is tried in turn, the end of the input included.\<close>

fun find_match :: "regexp \<Rightarrow> string \<Rightarrow> (nat \<times> nat) option" where
  "find_match re s =
     (case compile (ignoreCase re) (dotAll re) (source re) Some s of
        Some rest \<Rightarrow> Some (0, length s - length rest)
      | None \<Rightarrow>
          (case s of
             [] \<Rightarrow> None
           | c # cs \<Rightarrow> map_option (\<lambda>(i, n). (Suc i, n)) (find_match re cs)))"

text \<open>\<^verbatim>\<open>s.match(re)\<close> for a regular expression with the flag \<^verbatim>\<open>g\<close>: the matches from
  \<open>lastIndex\<close> on, each search starting where the last match ended (one further after an
  empty match).\<close>

function match_from :: "regexp \<Rightarrow> string \<Rightarrow> nat \<Rightarrow> string list" where
  "match_from re s lastIndex =
     (if lastIndex > length s then []
      else (case find_match re (drop lastIndex s) of
              None \<Rightarrow> []
            | Some (i, n) \<Rightarrow>
                (let e = lastIndex + i + n
                 in take n (drop (lastIndex + i) s)
                    # match_from re s (if n = 0 then e + 1 else e))))"
  by pat_completeness auto
termination
  by (relation "measure (\<lambda>(re, s, lastIndex). Suc (length s) - lastIndex)") auto

text \<open>The result of \<^verbatim>\<open>match\<close> is \<^verbatim>\<open>null\<close> when there is no match.\<close>

definition match_all :: "string \<Rightarrow> regexp \<Rightarrow> string list option" where
  "match_all s re = (case match_from re s 0 of [] \<Rightarrow> None | ms \<Rightarrow> Some ms)"

text \<open>\<^verbatim>\<open>s.replace(re, '')\<close> for a regular expression without \<^verbatim>\<open>g\<close>: the first match
  is cut out.\<close>

definition replace_first :: "string \<Rightarrow> regexp \<Rightarrow> string" where
  "replace_first s re =
     (case find_match re s of None \<Rightarrow> s | Some (i, n) \<Rightarrow> take i s @ drop (i + n) s)"

section \<open>The acceptance-criteria extractor\<close>

text \<open>The lookahead \<^verbatim>\<open>(?=\n\n|\n[A-Z]|$)\<close> that ends a labelled section.\<close>

definition section_end :: regex where
  "section_end =
     Lookahead (Alt (lit [nl, nl]) (Alt (Seq (Chr nl) (Class [(CHR ''A'', CHR ''Z'')])) EndAnchor))"

text \<open>The five patterns of \<^verbatim>\<open>extractAcceptanceCriteria\<close>, in the order of the source:
  \<^verbatim>\<open>/acceptance criteria:?\s*(.*?)(?=\n\n|\n[A-Z]|$)/gsi\<close>,
  \<^verbatim>\<open>/ac:?\s*(.*?)(?=\n\n|\n[A-Z]|$)/gsi\<close>,
  \<^verbatim>\<open>/given.*when.*then.*/gsi\<close>,
  \<^verbatim>\<open>/- \[[ x]\] .*/g\<close> and
  \<^verbatim>\<open>/\* .*/g\<close>.\<close>

definition pattern_labelled :: regexp where
  "pattern_labelled =
     \<lparr>source = seqs [lit ''acceptance criteria'', Opt (Chr CHR '':''), Star Space,
                      Group (StarLazy Dot), section_end],
      ignoreCase = True, dotAll = True\<rparr>"

definition pattern_ac :: regexp where
  "pattern_ac =
     \<lparr>source = seqs [lit ''ac'', Opt (Chr CHR '':''), Star Space, Group (StarLazy Dot), section_end],
      ignoreCase = True, dotAll = True\<rparr>"

definition pattern_gwt :: regexp where
  "pattern_gwt =
     \<lparr>source = seqs [lit ''given'', Star Dot, lit ''when'', Star Dot, lit ''then'', Star Dot],
      ignoreCase = True, dotAll = True\<rparr>"

definition pattern_checkbox :: regexp where
  "pattern_checkbox =
     \<lparr>source = seqs [lit ''- ['', Class [(CHR '' '', CHR '' ''), (CHR ''x'', CHR ''x'')], lit ''] '',
                      Star Dot],
      ignoreCase = False, dotAll = False\<rparr>"

definition pattern_bullet :: regexp where
  "pattern_bullet = \<lparr>source = seqs [lit ''* '', Star Dot], ignoreCase = False, dotAll = False\<rparr>"

definition patterns :: "regexp list" where
  "patterns = [pattern_labelled, pattern_ac, pattern_gwt, pattern_checkbox, pattern_bullet]"

text \<open>The two label expressions of the cleaning step,
  \<^verbatim>\<open>/acceptance criteria:?/i\<close> and \<^verbatim>\<open>/ac:?/i\<close>.\<close>

definition label_long :: regexp where
  "label_long =
     \<lparr>source = seqs [lit ''acceptance criteria'', Opt (Chr CHR '':'')], ignoreCase = True, dotAll = False\<rparr>"

definition label_short :: regexp where
  "label_short = \<lparr>source = seqs [lit ''ac'', Opt (Chr CHR '':'')], ignoreCase = True, dotAll = False\<rparr>"

text \<open>\<^verbatim>\<open>match.replace(/acceptance criteria:?/i, '').replace(/ac:?/i, '').trim()\<close>.\<close>

definition cleaned :: "string \<Rightarrow> string" where
  "cleaned mt = trim (replace_first (replace_first mt label_long) label_short)"

text \<open>The body of the \<^verbatim>\<open>forEach\<close>: push the cleaned match unless it is empty or
  already there.\<close>

definition push_match :: "string list \<Rightarrow> string \<Rightarrow> string list" where
  "push_match criteria mt =
     (if cleaned mt \<noteq> [] \<and> cleaned mt \<notin> set criteria then criteria @ [cleaned mt] else criteria)"

text \<open>The body of the loop over the patterns.\<close>

definition collect :: "string \<Rightarrow> string list \<Rightarrow> regexp \<Rightarrow> string list" where
  "collect description criteria pattern =
     (case match_all description pattern of
        None \<Rightarrow> criteria
      | Some matches \<Rightarrow> foldl push_match criteria matches)"

text \<open>\<^verbatim>\<open>extractAcceptanceCriteria\<close>. The parameter is declared a string, and the
  caller passes whatever the response holds: a falsy value gives the empty list, and a
  truthy value that is not a string has no \<^verbatim>\<open>match\<close> method.\<close>

definition extractAcceptanceCriteria :: "json \<Rightarrow> thrown + string list" where
  "extractAcceptanceCriteria description =
     (if \<not> truthy description then Inr []
      else (case description of
              JStr s \<Rightarrow> Inr (foldl (collect s) [] patterns)
            | _ \<Rightarrow> Inl (TypeError ''description.match is not a function'')))"

section \<open>Requests to the remote service\<close>

datatype http_method = GET | POST | PUT

record http_request =
  req_method :: http_method
  req_url :: string
  req_headers :: "(string \<times> string) list"
  req_params :: "json option"
  req_data :: "json option"

record JiraConfig =
  baseUrl :: string
  email :: string
  apiToken :: string

text \<open>
  The server object: its configuration, and the collaborators the program calls without
  defining them. \<open>axios\<close> is the HTTP client: it answers a request, given the requests
  issued before it, with the body of the response or with a rejection. \<open>base64\<close> is
  \<^verbatim>\<open>Buffer.from(s).toString('base64')\<close>, \<open>toLocaleDateString\<close> is
  \<^verbatim>\<open>new Date(v).toLocaleDateString()\<close>, \<open>toLowerCase\<close> is
  \<^verbatim>\<open>String.prototype.toLowerCase\<close> (the case mapping of the Unicode tables, whatever
  they are), and \<open>stringGreaterThanZero\<close> is the comparison \<^verbatim>\<open>s > 0\<close> for a string,
  which converts it to a floating-point number.
\<close>

record JiraServer =
  config :: JiraConfig
  axios :: "http_request list \<Rightarrow> http_request \<Rightarrow> thrown + json"
  base64 :: "string \<Rightarrow> string"
  toLocaleDateString :: "json \<Rightarrow> string"
  toLowerCase :: "string \<Rightarrow> string"
  stringGreaterThanZero :: "string \<Rightarrow> bool"

text \<open>An asynchronous computation: from the requests issued so far to its outcome and
  the requests issued when it ends.\<close>

type_synonym 'a io = "http_request list \<Rightarrow> (thrown + 'a) \<times> http_request list"

record request_options =
  opt_params :: json
  opt_data :: json
  opt_method :: "http_method option"

definition no_options :: request_options where
  "no_options = \<lparr>opt_params = JUndefined, opt_data = JUndefined, opt_method = None\<rparr>"

text \<open>\<^verbatim>\<open>makeJiraRequest\<close>.\<close>

definition makeJiraRequest :: "JiraServer \<Rightarrow> string \<Rightarrow> request_options \<Rightarrow> json io" where
  "makeJiraRequest srv endpoint options log =
     (let auth = base64 srv (email (config srv) @ '':'' @ apiToken (config srv));
          apiBase = baseUrl (config srv) @ ''/rest/api/3'';
          meth = (case opt_method options of None \<Rightarrow> GET | Some m \<Rightarrow> m);
          request =
            \<lparr>req_method = meth,
             req_url = apiBase @ endpoint,
             req_headers =
               [(''Authorization'', ''Basic '' @ auth), (''Accept'', ''application/json'')]
               @ (if meth \<noteq> GET then [(''Content-Type'', ''application/json'')] else []),
             req_params = (if truthy (opt_params options) then Some (opt_params options) else None),
             req_data = (if truthy (opt_data options) then Some (opt_data options) else None)\<rparr>
      in (axios srv log request, log @ [request]))"

section \<open>Tool results\<close>

record content_block =
  block_type :: string
  block_text :: string

record tool_result =
  content :: "content_block list"

text \<open>\<^verbatim>\<open>{ content: [{ type: "text", text: t }] }\<close>.\<close>

definition text_result :: "string \<Rightarrow> tool_result" where
  "text_result t = \<lparr>content = [\<lparr>block_type = ''text'', block_text = t\<rparr>]\<rparr>"

text \<open>The marks U+2713 and U+2717 that open the lines of a report, as their UTF-8 bytes.\<close>

definition check_mark :: string where
  "check_mark = [CHR 0xE2, CHR 0x9C, CHR 0x93]"

definition cross_mark :: string where
  "cross_mark = [CHR 0xE2, CHR 0x9C, CHR 0x97]"

text \<open>\<^verbatim>\<open>Array.prototype.map\<close> with a callback that may throw.\<close>

fun map_throwing :: "('a \<Rightarrow> thrown + 'b) \<Rightarrow> 'a list \<Rightarrow> thrown + 'b list" where
  "map_throwing f [] = Inr []"
| "map_throwing f (x # xs) = bind (f x) (\<lambda>y. bind (map_throwing f xs) (\<lambda>ys. Inr (y # ys)))"

text \<open>\<^verbatim>\<open>v?.map(f) || []\<close>: nothing to map when \<open>v\<close> is absent; a value that is not an
  array has no \<^verbatim>\<open>map\<close> method.\<close>

definition opt_map :: "string \<Rightarrow> (json \<Rightarrow> thrown + json) \<Rightarrow> json \<Rightarrow> thrown + json list" where
  "opt_map what f v =
     (if nullish v then Inr []
      else (case v of
              JArr xs \<Rightarrow> map_throwing f xs
            | _ \<Rightarrow> Inl (TypeError (what @ ''.map is not a function''))))"

section \<open>Get Issue\<close>

definition numbered :: "string list \<Rightarrow> string list" where
  "numbered acs = map (\<lambda>(i, ac). show_nat (i + 1) @ ''. '' @ ac) (enumerate 0 acs)"

text \<open>
  The part of \<^verbatim>\<open>getIssue\<close> after the request, in the order of the source: the
  description, the extractor, then the fields of the report. Reading
  \<^verbatim>\<open>data.renderedFields\<close> throws when the body is absent, and reading
  \<^verbatim>\<open>data.fields.summary\<close> throws when \<^verbatim>\<open>fields\<close> is; once these two reads are
  through, no other read of the function can throw. (The field \<^verbatim>\<open>reporter\<close> of the
  source is computed and not printed.)
\<close>

definition getIssue_text :: "JiraServer \<Rightarrow> json \<Rightarrow> thrown + string" where
  "getIssue_text srv data =
     bind (get_prop data ''renderedFields'') (\<lambda>renderedFields.
       let fields = own_prop data ''fields'';
           description = or_else (opt_prop renderedFields ''description'') (opt_prop fields ''description'')
       in bind (extractAcceptanceCriteria description) (\<lambda>acceptanceCriteria.
            bind (get_prop fields ''summary'') (\<lambda>summary.
              let key = own_prop data ''key'';
                  status = opt_prop (own_prop fields ''status'') ''name'';
                  assignee = or_else (opt_prop (own_prop fields ''assignee'') ''displayName'') (JStr ''Unassigned'');
                  priority = opt_prop (own_prop fields ''priority'') ''name'';
                  created = own_prop fields ''created'';
                  updated = own_prop fields ''updated'';
                  url = baseUrl (config srv) @ ''/browse/'' @ ToString key
              in Inr (concat
                   [''**'', ToString key, '': '', ToString summary, ''**'', [nl, nl],
                    ''**Status:** '', ToString status, [nl],
                    ''**Assignee:** '', ToString assignee, [nl],
                    ''**Priority:** '', ToString priority, [nl],
                    ''**URL:** '', url, [nl, nl],
                    ''**Description:**'', [nl],
                    ToString description, [nl, nl],
                    ''**Acceptance Criteria:**'', [nl],
                    (if length acceptanceCriteria > 0 then join [nl] (numbered acceptanceCriteria)
                     else ''None found''), [nl, nl],
                    ''**Created:** '', toLocaleDateString srv created, [nl],
                    ''**Updated:** '', toLocaleDateString srv updated]))))"

definition getIssue :: "JiraServer \<Rightarrow> json \<Rightarrow> tool_result io" where
  "getIssue srv issueKey log =
     (case makeJiraRequest srv (''/issue/'' @ ToString issueKey)
             \<lparr>opt_params =
                JObj [(''fields'', JStr ''summary,status,assignee,priority,created,updated,description,issuetype,reporter,parent''),
                      (''expand'', JStr ''renderedFields'')],
              opt_data = JUndefined, opt_method = None\<rparr> log of
        (Inl e, log') \<Rightarrow> (Inl e, log')
      | (Inr data, log') \<Rightarrow> (bind (getIssue_text srv data) (\<lambda>t. Inr (text_result t)), log'))"

section \<open>Search Issues\<close>

text \<open>The callback of the first \<^verbatim>\<open>map\<close> of \<^verbatim>\<open>searchIssues\<close>.\<close>

definition search_issue :: "JiraServer \<Rightarrow> json \<Rightarrow> thrown + json" where
  "search_issue srv issue =
     bind (get_prop issue ''key'') (\<lambda>key.
       let fields = own_prop issue ''fields''
       in bind (get_prop fields ''summary'') (\<lambda>summary.
            Inr (JObj
              [(''key'', key),
               (''summary'', summary),
               (''status'', opt_prop (own_prop fields ''status'') ''name''),
               (''assignee'', or_else (opt_prop (own_prop fields ''assignee'') ''displayName'') (JStr ''Unassigned'')),
               (''priority'', opt_prop (own_prop fields ''priority'') ''name''),
               (''url'', JStr (baseUrl (config srv) @ ''/browse/'' @ ToString key))])))"

text \<open>The callback of the second \<^verbatim>\<open>map\<close>: the block of one issue.\<close>

definition search_block :: "json \<Rightarrow> string" where
  "search_block issue =
     concat [''**'', ToString (own_prop issue ''key''), ''**: '', ToString (own_prop issue ''summary''), [nl],
             ''- Status: '', ToString (own_prop issue ''status''), [nl],
             ''- Assignee: '', ToString (own_prop issue ''assignee''), [nl],
             ''- Priority: '', ToString (own_prop issue ''priority''), [nl],
             ''- URL: '', ToString (own_prop issue ''url'')]"

definition searchIssues_text :: "JiraServer \<Rightarrow> json \<Rightarrow> thrown + string" where
  "searchIssues_text srv data =
     bind (get_prop data ''issues'') (\<lambda>v.
       bind (opt_map ''data.issues?'' (search_issue srv) v) (\<lambda>issues.
         Inr (''Found '' @ show_nat (length issues) @ '' issues:'' @ [nl, nl]
              @ join [nl, nl] (map search_block issues))))"

definition searchIssues :: "JiraServer \<Rightarrow> json \<Rightarrow> json \<Rightarrow> tool_result io" where
  "searchIssues srv jql maxResults log =
     (case makeJiraRequest srv ''/search''
             \<lparr>opt_params =
                JObj [(''jql'', jql), (''maxResults'', maxResults),
                      (''fields'', JStr ''summary,status,assignee,priority,created,updated'')],
              opt_data = JUndefined, opt_method = None\<rparr> log of
        (Inl e, log') \<Rightarrow> (Inl e, log')
      | (Inr data, log') \<Rightarrow> (bind (searchIssues_text srv data) (\<lambda>t. Inr (text_result t)), log'))"

section \<open>Get Issue Comments and Get Transitions\<close>

definition comment_entry :: "json \<Rightarrow> thrown + json" where
  "comment_entry comment =
     bind (get_prop comment ''author'') (\<lambda>author.
       bind (get_prop author ''displayName'') (\<lambda>displayName.
         Inr (JObj
           [(''author'', displayName),
            (''created'', own_prop comment ''created''),
            (''body'', or_else (own_prop comment ''renderedBody'') (own_prop comment ''body''))])))"

definition comment_block :: "JiraServer \<Rightarrow> json \<Rightarrow> string" where
  "comment_block srv comment =
     concat [''**'', ToString (own_prop comment ''author''), ''** ('',
             toLocaleDateString srv (own_prop comment ''created''), ''):'', [nl],
             ToString (own_prop comment ''body'')]"

definition getIssueComments :: "JiraServer \<Rightarrow> json \<Rightarrow> tool_result io" where
  "getIssueComments srv issueKey log =
     (case makeJiraRequest srv (''/issue/'' @ ToString issueKey @ ''/comment'') no_options log of
        (Inl e, log') \<Rightarrow> (Inl e, log')
      | (Inr data, log') \<Rightarrow>
          (bind (get_prop data ''comments'') (\<lambda>v.
             bind (opt_map ''data.comments?'' comment_entry v) (\<lambda>comments.
               Inr (text_result
                 (''Comments for '' @ ToString issueKey @ '':'' @ [nl, nl]
                  @ join ([nl, nl] @ ''---'' @ [nl, nl]) (map (comment_block srv) comments))))),
           log'))"

definition transition_entry :: "json \<Rightarrow> thrown + json" where
  "transition_entry transition =
     bind (get_prop transition ''id'') (\<lambda>tid.
       Inr (JObj
         [(''id'', tid),
          (''name'', own_prop transition ''name''),
          (''to'', opt_prop (own_prop transition ''to'') ''name'')]))"

definition transition_line :: "json \<Rightarrow> string" where
  "transition_line transition =
     concat [''**'', ToString (own_prop transition ''name''), ''** (ID: '',
             ToString (own_prop transition ''id''), '') -> '', ToString (own_prop transition ''to'')]"

definition getTransitions :: "JiraServer \<Rightarrow> json \<Rightarrow> tool_result io" where
  "getTransitions srv issueKey log =
     (case makeJiraRequest srv (''/issue/'' @ ToString issueKey @ ''/transitions'') no_options log of
        (Inl e, log') \<Rightarrow> (Inl e, log')
      | (Inr data, log') \<Rightarrow>
          (bind (get_prop data ''transitions'') (\<lambda>v.
             bind (opt_map ''data.transitions?'' transition_entry v) (\<lambda>transitions.
               Inr (text_result
                 (''Available transitions for '' @ ToString issueKey @ '':'' @ [nl, nl]
                  @ join [nl] (map transition_line transitions))))),
           log'))"

section \<open>Update Issue\<close>

text \<open>\<^verbatim>\<open>v.toLowerCase()\<close>: only a string has the method.\<close>

definition call_toLowerCase :: "JiraServer \<Rightarrow> string \<Rightarrow> json \<Rightarrow> thrown + string" where
  "call_toLowerCase srv what v =
     (case v of
        JStr s \<Rightarrow> Inr (toLowerCase srv s)
      | _ \<Rightarrow> bind (get_prop v ''toLowerCase'') (\<lambda>f. Inl (TypeError (what @ ''.toLowerCase is not a function''))))"

text \<open>The callback of \<^verbatim>\<open>find\<close>:
  \<^verbatim>\<open>t.name.toLowerCase() === transition.toLowerCase() || t.id === transition\<close>.\<close>

definition transition_matches :: "JiraServer \<Rightarrow> json \<Rightarrow> json \<Rightarrow> thrown + bool" where
  "transition_matches srv transition t =
     bind (get_prop t ''name'') (\<lambda>tname.
       bind (call_toLowerCase srv ''t.name'' tname) (\<lambda>a.
         bind (call_toLowerCase srv ''transition'' transition) (\<lambda>b.
           Inr (a = b \<or> strict_eq (own_prop t ''id'') transition))))"

text \<open>\<^verbatim>\<open>Array.prototype.find\<close> with a callback that may throw.\<close>

fun array_find :: "(json \<Rightarrow> thrown + bool) \<Rightarrow> json list \<Rightarrow> thrown + json" where
  "array_find f [] = Inr JUndefined"
| "array_find f (x # xs) =
     (case f x of Inl e \<Rightarrow> Inl e | Inr b \<Rightarrow> if b then Inr x else array_find f xs)"

text \<open>\<^verbatim>\<open>v?.find(f)\<close>.\<close>

definition opt_find :: "string \<Rightarrow> (json \<Rightarrow> thrown + bool) \<Rightarrow> json \<Rightarrow> thrown + json" where
  "opt_find what f v =
     (if nullish v then Inr JUndefined
      else (case v of
              JArr xs \<Rightarrow> array_find f xs
            | _ \<Rightarrow> Inl (TypeError (what @ ''.find is not a function''))))"

definition transition_not_found :: "json \<Rightarrow> string" where
  "transition_not_found transition =
     ''Transition '' @ [CHR 0x22] @ ToString transition @ [CHR 0x22]
     @ '' not found. Use jira_get_transitions to see available options.''"

text \<open>The body of the first \<^verbatim>\<open>try\<close> of \<^verbatim>\<open>updateIssue\<close>: it returns the line it
  appends to the report.\<close>

definition change_status :: "JiraServer \<Rightarrow> json \<Rightarrow> json \<Rightarrow> string io" where
  "change_status srv issueKey transition log =
     (case makeJiraRequest srv (''/issue/'' @ ToString issueKey @ ''/transitions'') no_options log of
        (Inl e, log1) \<Rightarrow> (Inl e, log1)
      | (Inr transitionsData, log1) \<Rightarrow>
          (case bind (get_prop transitionsData ''transitions'')
                  (opt_find ''transitionsData.transitions?'' (transition_matches srv transition)) of
             Inl e \<Rightarrow> (Inl e, log1)
           | Inr availableTransition \<Rightarrow>
               if \<not> truthy availableTransition
               then (Inl (Error (transition_not_found transition)), log1)
               else (case makeJiraRequest srv (''/issue/'' @ ToString issueKey @ ''/transitions'')
                            \<lparr>opt_params = JUndefined,
                             opt_data = JObj [(''transition'', JObj [(''id'', own_prop availableTransition ''id'')])],
                             opt_method = Some POST\<rparr> log1 of
                       (Inl e, log2) \<Rightarrow> (Inl e, log2)
                     | (Inr posted, log2) \<Rightarrow>
                         (Inr (check_mark @ '' Status changed to ''
                               @ ToString (or_else (opt_prop (own_prop availableTransition ''to'') ''name'') transition)
                               @ [nl]),
                          log2))))"

text \<open>The object \<^verbatim>\<open>fields\<close> of \<^verbatim>\<open>updateIssue\<close>.\<close>

definition update_fields :: "json \<Rightarrow> json \<Rightarrow> json \<Rightarrow> json \<Rightarrow> (string \<times> json) list" where
  "update_fields assignee summary description priority =
     (if truthy assignee then [(''assignee'', JObj [(''emailAddress'', assignee)])] else [])
     @ (if truthy summary then [(''summary'', summary)] else [])
     @ (if truthy description then [(''description'', description)] else [])
     @ (if truthy priority then [(''priority'', JObj [(''name'', priority)])] else [])"

text \<open>What destructuring \<^verbatim>\<open>args\<close> throws when it is \<^verbatim>\<open>undefined\<close> or \<^verbatim>\<open>null\<close>; the
  message names the first property of the pattern.\<close>

definition cannot_destructure :: "string \<Rightarrow> json \<Rightarrow> thrown" where
  "cannot_destructure p args =
     TypeError (''Cannot destructure property '' @ [CHR 0x27] @ p @ [CHR 0x27] @ '' of ''
                @ [CHR 0x27] @ ''args'' @ [CHR 0x27] @ '' as it is '' @ ToString args @ ''.'')"

definition updateIssue :: "JiraServer \<Rightarrow> json \<Rightarrow> tool_result io" where
  "updateIssue srv args log =
     (if nullish args then (Inl (cannot_destructure ''issueKey'' args), log)
      else
        let issueKey = own_prop args ''issueKey'';
            transition = own_prop args ''transition'';
            assignee = own_prop args ''assignee'';
            summary = own_prop args ''summary'';
            description = own_prop args ''description'';
            priority = own_prop args ''priority'';
            (updateResult1, log1) =
              (if truthy transition
               then (case change_status srv issueKey transition log of
                       (Inr line, l) \<Rightarrow> ([] @ line, l)
                     | (Inl error, l) \<Rightarrow>
                         ([] @ cross_mark @ '' Failed to change status: '' @ error_message error @ [nl], l))
               else ([], log));
            fields = update_fields assignee summary description priority;
            (updateResult2, log2) =
              (if length (map fst fields) > 0
               then (case makeJiraRequest srv (''/issue/'' @ ToString issueKey)
                            \<lparr>opt_params = JUndefined, opt_data = JObj [(''fields'', JObj fields)],
                             opt_method = Some PUT\<rparr> log1 of
                       (Inr done, l) \<Rightarrow>
                         (updateResult1 @ check_mark @ '' Updated fields: '' @ join '', '' (map fst fields) @ [nl], l)
                     | (Inl error, l) \<Rightarrow>
                         (updateResult1 @ cross_mark @ '' Failed to update fields: '' @ error_message error @ [nl], l))
               else (updateResult1, log1))
        in (Inr (text_result
                  (''Update results for '' @ ToString issueKey @ '':'' @ [nl, nl]
                   @ (if updateResult2 \<noteq> [] then updateResult2 else ''No updates requested''))),
            log2))"

section \<open>Create Issue\<close>

text \<open>\<^verbatim>\<open>Array.prototype.join\<close> on an array of values.\<close>

definition array_join :: "string \<Rightarrow> json list \<Rightarrow> string" where
  "array_join sep xs = join sep (map (\<lambda>x. if nullish x then [] else ToString x) xs)"

text \<open>\<^verbatim>\<open>v > 0\<close>.\<close>

fun greater_than_zero :: "JiraServer \<Rightarrow> json \<Rightarrow> bool" where
  "greater_than_zero srv (JNum n) = (n > 0)"
| "greater_than_zero srv (JBool b) = b"
| "greater_than_zero srv (JStr s) = stringGreaterThanZero srv s"
| "greater_than_zero srv (JArr xs) = stringGreaterThanZero srv (ToString (JArr xs))"
| "greater_than_zero srv v = False"

text \<open>\<^verbatim>\<open>labels && labels.length > 0\<close>.\<close>

definition labels_given :: "JiraServer \<Rightarrow> json \<Rightarrow> bool" where
  "labels_given srv labels = (truthy labels \<and> greater_than_zero srv (own_prop labels ''length''))"

text \<open>The object \<^verbatim>\<open>fields\<close> of \<^verbatim>\<open>createIssue\<close>. Only an array has \<^verbatim>\<open>map\<close>.\<close>

definition create_fields ::
  "JiraServer \<Rightarrow> json \<Rightarrow> json \<Rightarrow> json \<Rightarrow> json \<Rightarrow> json \<Rightarrow> json \<Rightarrow> json \<Rightarrow> thrown + (string \<times> json) list" where
  "create_fields srv projectKey summary description issueType priority assignee labels =
     (let fields =
            [(''project'', JObj [(''key'', projectKey)]),
             (''summary'', summary),
             (''issuetype'', JObj [(''name'', issueType)])]
            @ (if truthy description then [(''description'', description)] else [])
            @ (if truthy priority then [(''priority'', JObj [(''name'', priority)])] else [])
            @ (if truthy assignee then [(''assignee'', JObj [(''emailAddress'', assignee)])] else [])
      in if labels_given srv labels
         then (case labels of
                 JArr ls \<Rightarrow> Inr (fields @ [(''labels'', JArr (map (\<lambda>label. JObj [(''name'', label)]) ls))])
               | _ \<Rightarrow> Inl (TypeError ''labels.map is not a function''))
         else Inr fields)"

text \<open>The text of the success report, built inside the \<^verbatim>\<open>try\<close>.\<close>

definition created_text ::
  "JiraServer \<Rightarrow> json \<Rightarrow> json \<Rightarrow> json \<Rightarrow> json \<Rightarrow> json \<Rightarrow> json \<Rightarrow> json \<Rightarrow> json \<Rightarrow> thrown + string" where
  "created_text srv data projectKey summary description issueType priority assignee labels =
     bind (get_prop data ''key'') (\<lambda>issueKey.
       bind (if labels_given srv labels
             then (case labels of
                     JArr ls \<Rightarrow> Inr (''**Labels:** '' @ array_join '', '' ls)
                   | _ \<Rightarrow> Inl (TypeError ''labels.join is not a function''))
             else Inr []) (\<lambda>labels_line.
         Inr (concat
           [check_mark, '' Successfully created issue: **'', ToString issueKey, ''**'', [nl, nl],
            ''**Summary:** '', ToString summary, [nl],
            ''**Project:** '', ToString projectKey, [nl],
            ''**Issue Type:** '', ToString issueType, [nl],
            (if truthy priority then ''**Priority:** '' @ ToString priority else []), [nl],
            (if truthy assignee then ''**Assignee:** '' @ ToString assignee else []), [nl],
            labels_line, [nl, nl],
            ''**URL:** '', baseUrl (config srv) @ ''/browse/'' @ ToString issueKey, [nl, nl],
            (if truthy description then ''**Description:**'' @ [nl] @ ToString description else [])])))"

text \<open>The text of the failure report, built in the \<^verbatim>\<open>catch\<close>.\<close>

definition create_failed_text :: "thrown \<Rightarrow> json \<Rightarrow> json \<Rightarrow> json \<Rightarrow> string" where
  "create_failed_text error projectKey issueType priority =
     (let errorMessage = error_message error;
          tip1 =
            (if str_includes errorMessage ''project'' \<or> str_includes errorMessage ''Project''
             then [nl, nl] @ ''Tip: Make sure the project key '' @ [CHR 0x22] @ ToString projectKey @ [CHR 0x22]
                  @ '' exists and you have permission to create issues in it.''
             else []);
          tip2 =
            (if str_includes errorMessage ''issuetype'' \<or> str_includes errorMessage ''Issue Type''
             then [nl, nl] @ ''Tip: Make sure the issue type '' @ [CHR 0x22] @ ToString issueType @ [CHR 0x22]
                  @ '' is valid for this project. Common types: Task, Bug, Story, Epic.''
             else []);
          tip3 =
            (if str_includes errorMessage ''priority''
             then [nl, nl] @ ''Tip: Make sure the priority '' @ [CHR 0x22] @ ToString priority @ [CHR 0x22]
                  @ '' is valid. Common priorities: Highest, High, Medium, Low, Lowest.''
             else [])
      in cross_mark @ '' Failed to create issue: '' @ errorMessage @ tip1 @ tip2 @ tip3)"

definition createIssue :: "JiraServer \<Rightarrow> json \<Rightarrow> tool_result io" where
  "createIssue srv args log =
     (if nullish args then (Inl (cannot_destructure ''projectKey'' args), log)
      else
        let projectKey = own_prop args ''projectKey'';
            summary = own_prop args ''summary'';
            description = own_prop args ''description'';
            issueType = (if own_prop args ''issueType'' = JUndefined then JStr ''Task''
                         else own_prop args ''issueType'');
            priority = own_prop args ''priority'';
            assignee = own_prop args ''assignee'';
            labels = own_prop args ''labels''
        in (case create_fields srv projectKey summary description issueType priority assignee labels of
              Inl e \<Rightarrow> (Inl e, log)
            | Inr fs \<Rightarrow>
                (case makeJiraRequest srv ''/issue''
                        \<lparr>opt_params = JUndefined, opt_data = JObj [(''fields'', JObj fs)],
                         opt_method = Some POST\<rparr> log of
                   (response, log') \<Rightarrow>
                     (case bind response (\<lambda>data.
                             created_text srv data projectKey summary description issueType priority assignee labels) of
                        Inr t \<Rightarrow> (Inr (text_result t), log')
                      | Inl error \<Rightarrow>
                          (Inr (text_result (create_failed_text error projectKey issueType priority)), log')))))"

section \<open>The dispatcher\<close>

text \<open>
  The handler of a tool call. The protocol layer has checked the request against its
  schema before the handler runs, so \<open>name\<close> is a string; \<open>args\<close> is the argument
  bag, \<open>JUndefined\<close> when the request has none. \<open>dispatch\<close> is the \<^verbatim>\<open>switch\<close>,
  \<open>callTool\<close> the \<^verbatim>\<open>try\<close> around it with its \<^verbatim>\<open>catch\<close>.
\<close>

definition dispatch :: "JiraServer \<Rightarrow> string \<Rightarrow> json \<Rightarrow> tool_result io" where
  "dispatch srv name args log =
     (if name = ''jira_get_issue'' then getIssue srv (opt_prop args ''issueKey'') log
      else if name = ''jira_search_issues''
        then searchIssues srv (opt_prop args ''jql'') (or_else (opt_prop args ''maxResults'') (JNum 50)) log
      else if name = ''jira_get_issue_comments'' then getIssueComments srv (opt_prop args ''issueKey'') log
      else if name = ''jira_get_transitions'' then getTransitions srv (opt_prop args ''issueKey'') log
      else if name = ''jira_update_issue'' then updateIssue srv args log
      else if name = ''jira_create_issue'' then createIssue srv args log
      else (Inl (Error (''Unknown tool: '' @ name)), log))"

definition callTool :: "JiraServer \<Rightarrow> string \<Rightarrow> json \<Rightarrow> tool_result io" where
  "callTool srv name args log =
     (case dispatch srv name args log of
        (Inr result, log') \<Rightarrow> (Inr result, log')
      | (Inl error, log') \<Rightarrow> (Inr (text_result (''Error: '' @ error_message error)), log'))"



section \<open>Notions used to state the properties\<close>

text \<open>A list without its repetitions, every element kept where it first occurs.\<close>

fun first_seen :: "'a list \<Rightarrow> 'a list" where
  "first_seen [] = []"
| "first_seen (x # xs) = x # first_seen (removeAll x xs)"

text \<open>All matches of the five patterns in a description, in pattern order.\<close>

definition all_matches :: "string \<Rightarrow> string list" where
  "all_matches s = concat (map (\<lambda>pattern. match_from pattern s 0) patterns)"

text \<open>Whether a transition of the remote list answers to the requested value: its name
  is the value up to case (both mapped to lower case by the engine), or its id is the
  value.\<close>

definition answers_to :: "JiraServer \<Rightarrow> string \<Rightarrow> json \<Rightarrow> bool" where
  "answers_to srv t x =
     (toLowerCase srv (ToString (own_prop x ''name'')) = toLowerCase srv t \<or> own_prop x ''id'' = JStr t)"

text \<open>A string of ASCII characters, and a case mapping that is right on such strings.\<close>

definition is_ascii :: "string \<Rightarrow> bool" where
  "is_ascii s = list_all (\<lambda>c. \<not> digit7 c) s"

definition ascii_case_mapping :: "(string \<Rightarrow> string) \<Rightarrow> bool" where
  "ascii_case_mapping f = (\<forall>s. is_ascii s \<longrightarrow> f s = ascii_toLowerCase s)"




text \<open>A transition as the remote service lists it: an object whose name is a string.\<close>

definition named_transition :: "json \<Rightarrow> bool" where
  "named_transition x = (case x of JObj kvs \<Rightarrow> (case own_prop x ''name'' of JStr n \<Rightarrow> True | _ \<Rightarrow> False) | _ \<Rightarrow> False)"

text \<open>Two properties of a matcher. It is local when its result on an input depends only
  on what the continuation answers on inputs that are no longer; it is consuming when
  a result it returns is one the continuation returned on an input that is no longer.\<close>

definition local_matcher :: "matcher \<Rightarrow> bool" where
  "local_matcher ma =
     (\<forall>k k' s. (\<forall>s'. length s' \<le> length s \<longrightarrow> k s' = k' s') \<longrightarrow> ma k s = ma k' s)"

definition consuming :: "matcher \<Rightarrow> bool" where
  "consuming ma =
     (\<forall>k s res. ma k s = Some res \<longrightarrow> (\<exists>s'. length s' \<le> length s \<and> k s' = Some res))"

section \<open>Servers for the examples\<close>

definition demo_config :: JiraConfig where
  "demo_config = \<lparr>baseUrl = ''https://example.atlassian.net'', email = ''dev@example.com'', apiToken = ''token''\<rparr>"

text \<open>A server whose remote service answers every request with the same body, and one
  whose remote service rejects every request. Their inputs are ASCII, where the case
  mapping of the engine is \<open>ascii_toLowerCase\<close>.\<close>

definition answering :: "json \<Rightarrow> JiraServer" where
  "answering data =
     \<lparr>config = demo_config, axios = (\<lambda>log request. Inr data), base64 = (\<lambda>s. s),
      toLocaleDateString = ToString, toLowerCase = ascii_toLowerCase,
      stringGreaterThanZero = (\<lambda>s. False)\<rparr>"

definition rejecting :: "thrown \<Rightarrow> JiraServer" where
  "rejecting e =
     \<lparr>config = demo_config, axios = (\<lambda>log request. Inl e), base64 = (\<lambda>s. s),
      toLocaleDateString = ToString, toLowerCase = ascii_toLowerCase,
      stringGreaterThanZero = (\<lambda>s. False)\<rparr>"

section \<open>Auxiliary facts\<close>

declare match_from.simps [simp del] find_match.simps [simp del]

lemma nullish_not_truthy: "nullish v \<Longrightarrow> \<not> truthy v"
  by (cases v) auto

lemma strict_eq_JStr: "strict_eq v (JStr t) = (v = JStr t)"
  by (cases v) auto

lemma removeAll_as_filter: "removeAll x xs = filter (\<lambda>y. y \<noteq> x) xs"
  by (induction xs) auto

lemma set_first_seen: "set (first_seen xs) = set xs"
  by (induction xs rule: first_seen.induct) auto

lemma distinct_first_seen: "distinct (first_seen xs)"
  by (induction xs rule: first_seen.induct) (auto simp add: set_first_seen)

text \<open>The inner loop of the extractor appends, to the criteria found so far, the new
  non-empty cleaned matches, each where it is first seen.\<close>

lemma foldl_push_match:
  "foldl push_match acc ms =
     acc @ first_seen (filter (\<lambda>c. c \<notin> set acc) (filter (\<lambda>c. c \<noteq> []) (map cleaned ms)))"
proof (induction ms arbitrary: acc)
  case Nil
  then show ?case by simp
next
  case (Cons m ms)
  show ?case
  proof (cases "cleaned m \<noteq> [] \<and> cleaned m \<notin> set acc")
    case True
    then have "push_match acc m = acc @ [cleaned m]"
      by (simp add: push_match_def)
    then have "foldl push_match acc (m # ms) =
        (acc @ [cleaned m]) @ first_seen (filter (\<lambda>c. c \<notin> set (acc @ [cleaned m]))
           (filter (\<lambda>c. c \<noteq> []) (map cleaned ms)))"
      using Cons.IH [of "acc @ [cleaned m]"] by simp
    also have "\<dots> = acc @ first_seen (filter (\<lambda>c. c \<notin> set acc)
           (filter (\<lambda>c. c \<noteq> []) (map cleaned (m # ms))))"
      using True
      by (auto simp add: removeAll_as_filter intro!: arg_cong [where f = first_seen] filter_cong)
    finally show ?thesis .
  next
    case False
    then have "push_match acc m = acc"
      by (auto simp add: push_match_def)
    then show ?thesis
      using Cons.IH [of acc] False by auto
  qed
qed

lemma collect_foldl: "collect s acc pattern = foldl push_match acc (match_from pattern s 0)"
  by (simp add: collect_def match_all_def split: list.splits)

lemma foldl_collect:
  "foldl (collect s) acc ps =
     foldl push_match acc (concat (map (\<lambda>pattern. match_from pattern s 0) ps))"
  by (induction ps arbitrary: acc) (simp_all add: collect_foldl)

lemma no_match_in_empty: "all_matches [] = []"
  unfolding all_matches_def by code_simp

section \<open>The matcher is well defined\<close>

text \<open>
  The quantifiers are defined with a bound on the number of iterations. The bound is
  never reached: a matcher is local, so an iteration that starts with more fuel than
  input is left gives the same result with any larger amount, and the matchers of
  \<^verbatim>\<open>*\<close> and \<^verbatim>\<open>*?\<close> satisfy the recursive equations of the language
  (\<open>compile_Star_unfold\<close>, \<open>compile_StarLazy_unfold\<close>).
\<close>

lemma local_matcherD:
  "local_matcher ma \<Longrightarrow> (\<And>s'. length s' \<le> length s \<Longrightarrow> k s' = k' s') \<Longrightarrow> ma k s = ma k' s"
  unfolding local_matcher_def by blast

lemma local_char_matcher: "local_matcher (char_matcher P)"
  by (auto simp add: local_matcher_def char_matcher_def split: list.splits)

lemma local_repeat_greedy:
  assumes "local_matcher ma"
  shows "local_matcher (repeat_greedy ma n)"
proof (induction n)
  case 0
  then show ?case by (simp add: local_matcher_def)
next
  case (Suc n)
  show ?case
    unfolding local_matcher_def
  proof (intro allI impI)
    fix k k' :: cont and s :: string
    assume kk: "\<forall>s'. length s' \<le> length s \<longrightarrow> k s' = k' s'"
    have "ma (\<lambda>s'. if length s' = length s then None else repeat_greedy ma n k s') s =
          ma (\<lambda>s'. if length s' = length s then None else repeat_greedy ma n k' s') s"
    proof (rule local_matcherD [OF assms])
      fix s' :: string
      assume "length s' \<le> length s"
      then have "repeat_greedy ma n k s' = repeat_greedy ma n k' s'"
        using kk by (intro local_matcherD [OF Suc]) auto
      then show "(if length s' = length s then None else repeat_greedy ma n k s') =
                 (if length s' = length s then None else repeat_greedy ma n k' s')"
        by simp
    qed
    moreover have "k s = k' s"
      using kk by simp
    ultimately show "repeat_greedy ma (Suc n) k s = repeat_greedy ma (Suc n) k' s"
      by (simp split: option.splits)
  qed
qed

lemma local_repeat_lazy:
  assumes "local_matcher ma"
  shows "local_matcher (repeat_lazy ma n)"
proof (induction n)
  case 0
  then show ?case by (simp add: local_matcher_def)
next
  case (Suc n)
  show ?case
    unfolding local_matcher_def
  proof (intro allI impI)
    fix k k' :: cont and s :: string
    assume kk: "\<forall>s'. length s' \<le> length s \<longrightarrow> k s' = k' s'"
    have "ma (\<lambda>s'. if length s' = length s then None else repeat_lazy ma n k s') s =
          ma (\<lambda>s'. if length s' = length s then None else repeat_lazy ma n k' s') s"
    proof (rule local_matcherD [OF assms])
      fix s' :: string
      assume "length s' \<le> length s"
      then have "repeat_lazy ma n k s' = repeat_lazy ma n k' s'"
        using kk by (intro local_matcherD [OF Suc]) auto
      then show "(if length s' = length s then None else repeat_lazy ma n k s') =
                 (if length s' = length s then None else repeat_lazy ma n k' s')"
        by simp
    qed
    moreover have "k s = k' s"
      using kk by simp
    ultimately show "repeat_lazy ma (Suc n) k s = repeat_lazy ma (Suc n) k' s"
      by (simp split: option.splits)
  qed
qed

lemma local_compile: "local_matcher (compile ic da r)"
proof (induction r)
  case (Seq a b)
  show ?case
    unfolding local_matcher_def
  proof (intro allI impI)
    fix k k' :: cont and s :: string
    assume kk: "\<forall>s'. length s' \<le> length s \<longrightarrow> k s' = k' s'"
    have "compile ic da a (\<lambda>s'. compile ic da b k s') s = compile ic da a (\<lambda>s'. compile ic da b k' s') s"
    proof (rule local_matcherD [OF Seq(1)])
      fix s' :: string
      assume "length s' \<le> length s"
      then show "compile ic da b k s' = compile ic da b k' s'"
        using kk by (intro local_matcherD [OF Seq(2)]) auto
    qed
    then show "compile ic da (Seq a b) k s = compile ic da (Seq a b) k' s"
      by simp
  qed
next
  case (Alt a b)
  show ?case
    unfolding local_matcher_def
  proof (intro allI impI)
    fix k k' :: cont and s :: string
    assume kk: "\<forall>s'. length s' \<le> length s \<longrightarrow> k s' = k' s'"
    have "compile ic da a k s = compile ic da a k' s" "compile ic da b k s = compile ic da b k' s"
      using kk by (auto intro: local_matcherD [OF Alt(1)] local_matcherD [OF Alt(2)])
    then show "compile ic da (Alt a b) k s = compile ic da (Alt a b) k' s"
      by (simp split: option.splits)
  qed
next
  case (Opt a)
  show ?case
    unfolding local_matcher_def
  proof (intro allI impI)
    fix k k' :: cont and s :: string
    assume kk: "\<forall>s'. length s' \<le> length s \<longrightarrow> k s' = k' s'"
    have "compile ic da a (\<lambda>s'. if length s' = length s then None else k s') s =
          compile ic da a (\<lambda>s'. if length s' = length s then None else k' s') s"
      using kk by (intro local_matcherD [OF Opt]) auto
    moreover have "k s = k' s"
      using kk by simp
    ultimately show "compile ic da (Opt a) k s = compile ic da (Opt a) k' s"
      by (simp split: option.splits)
  qed
next
  case (Star a)
  show ?case
    unfolding local_matcher_def
  proof (intro allI impI)
    fix k k' :: cont and s :: string
    assume kk: "\<forall>s'. length s' \<le> length s \<longrightarrow> k s' = k' s'"
    have "repeat_greedy (compile ic da a) (Suc (length s)) k s =
          repeat_greedy (compile ic da a) (Suc (length s)) k' s"
      using kk by (intro local_matcherD [OF local_repeat_greedy [OF Star]]) auto
    then show "compile ic da (Star a) k s = compile ic da (Star a) k' s"
      by (simp only: compile.simps)
  qed
next
  case (StarLazy a)
  show ?case
    unfolding local_matcher_def
  proof (intro allI impI)
    fix k k' :: cont and s :: string
    assume kk: "\<forall>s'. length s' \<le> length s \<longrightarrow> k s' = k' s'"
    have "repeat_lazy (compile ic da a) (Suc (length s)) k s =
          repeat_lazy (compile ic da a) (Suc (length s)) k' s"
      using kk by (intro local_matcherD [OF local_repeat_lazy [OF StarLazy]]) auto
    then show "compile ic da (StarLazy a) k s = compile ic da (StarLazy a) k' s"
      by (simp only: compile.simps)
  qed
next
  case (Group a)
  then show ?case by (simp add: local_matcher_def)
next
  case (Lookahead a)
  show ?case
    unfolding local_matcher_def
  proof (intro allI impI)
    fix k k' :: cont and s :: string
    assume kk: "\<forall>s'. length s' \<le> length s \<longrightarrow> k s' = k' s'"
    then have "k s = k' s"
      by simp
    then show "compile ic da (Lookahead a) k s = compile ic da (Lookahead a) k' s"
      by (simp split: option.splits)
  qed
qed (simp_all add: local_matcher_def char_matcher_def split: list.splits)

lemma repeat_greedy_fuel:
  assumes "local_matcher ma"
  shows "length s < n \<Longrightarrow> length s < m \<Longrightarrow> repeat_greedy ma n k s = repeat_greedy ma m k s"
proof (induction n arbitrary: m s)
  case 0
  then show ?case by simp
next
  case (Suc n)
  then obtain m' where m: "m = Suc m'"
    by (cases m) auto
  have "ma (\<lambda>s'. if length s' = length s then None else repeat_greedy ma n k s') s =
        ma (\<lambda>s'. if length s' = length s then None else repeat_greedy ma m' k s') s"
  proof (rule local_matcherD [OF assms])
    fix s' :: string
    assume "length s' \<le> length s"
    then show "(if length s' = length s then None else repeat_greedy ma n k s') =
               (if length s' = length s then None else repeat_greedy ma m' k s')"
      using Suc.IH [of s' m'] Suc.prems m by auto
  qed
  then show ?case by (simp add: m split: option.splits)
qed

lemma repeat_lazy_fuel:
  assumes "local_matcher ma"
  shows "length s < n \<Longrightarrow> length s < m \<Longrightarrow> repeat_lazy ma n k s = repeat_lazy ma m k s"
proof (induction n arbitrary: m s)
  case 0
  then show ?case by simp
next
  case (Suc n)
  then obtain m' where m: "m = Suc m'"
    by (cases m) auto
  have "ma (\<lambda>s'. if length s' = length s then None else repeat_lazy ma n k s') s =
        ma (\<lambda>s'. if length s' = length s then None else repeat_lazy ma m' k s') s"
  proof (rule local_matcherD [OF assms])
    fix s' :: string
    assume "length s' \<le> length s"
    then show "(if length s' = length s then None else repeat_lazy ma n k s') =
               (if length s' = length s then None else repeat_lazy ma m' k s')"
      using Suc.IH [of s' m'] Suc.prems m by auto
  qed
  then show ?case by (simp add: m split: option.splits)
qed

lemma compile_Star_unfold:
  "compile ic da (Star a) k s =
     (case compile ic da a (\<lambda>s'. if length s' = length s then None else compile ic da (Star a) k s') s of
        Some r \<Rightarrow> Some r
      | None \<Rightarrow> k s)"
proof -
  let ?ma = "compile ic da a"
  have h: "?ma (\<lambda>s'. if length s' = length s then None else repeat_greedy ?ma (length s) k s') s =
        ?ma (\<lambda>s'. if length s' = length s then None else repeat_greedy ?ma (Suc (length s')) k s') s"
  proof (rule local_matcherD [OF local_compile])
    fix s' :: string
    assume "length s' \<le> length s"
    then show "(if length s' = length s then None else repeat_greedy ?ma (length s) k s') =
               (if length s' = length s then None else repeat_greedy ?ma (Suc (length s')) k s')"
      using repeat_greedy_fuel [OF local_compile, of s' "length s" "Suc (length s')" ic da a k] by auto
  qed
  show ?thesis
    unfolding compile.simps
    by (subst repeat_greedy.simps(2)) (simp only: h)
qed

lemma compile_StarLazy_unfold:
  "compile ic da (StarLazy a) k s =
     (case k s of
        Some r \<Rightarrow> Some r
      | None \<Rightarrow> compile ic da a (\<lambda>s'. if length s' = length s then None else compile ic da (StarLazy a) k s') s)"
proof -
  let ?ma = "compile ic da a"
  have h: "?ma (\<lambda>s'. if length s' = length s then None else repeat_lazy ?ma (length s) k s') s =
        ?ma (\<lambda>s'. if length s' = length s then None else repeat_lazy ?ma (Suc (length s')) k s') s"
  proof (rule local_matcherD [OF local_compile])
    fix s' :: string
    assume "length s' \<le> length s"
    then show "(if length s' = length s then None else repeat_lazy ?ma (length s) k s') =
               (if length s' = length s then None else repeat_lazy ?ma (Suc (length s')) k s')"
      using repeat_lazy_fuel [OF local_compile, of s' "length s" "Suc (length s')" ic da a k] by auto
  qed
  show ?thesis
    unfolding compile.simps
    by (subst repeat_lazy.simps(2)) (simp only: h)
qed

text \<open>
  A match ends inside the input: the rest that a matcher returns is no longer than the
  input it was given, so the length of a match is a true difference, and a match of a
  pattern that starts with a literal character starts with that character.
\<close>

lemma consumingD:
  "consuming ma \<Longrightarrow> ma k s = Some res \<Longrightarrow> \<exists>s'. length s' \<le> length s \<and> k s' = Some res"
  unfolding consuming_def by blast

lemma consuming_char_matcher: "consuming (char_matcher P)"
  unfolding consuming_def char_matcher_def
  by (auto split: list.splits if_splits) (metis le_SucI order_refl)

lemma consuming_repeat_greedy:
  assumes "consuming ma"
  shows "consuming (repeat_greedy ma n)"
proof (induction n)
  case 0
  then show ?case by (auto simp add: consuming_def)
next
  case (Suc n)
  show ?case
    unfolding consuming_def
  proof (intro allI impI)
    fix k :: cont and s res :: string
    assume a: "repeat_greedy ma (Suc n) k s = Some res"
    show "\<exists>s'. length s' \<le> length s \<and> k s' = Some res"
    proof (cases "ma (\<lambda>s'. if length s' = length s then None else repeat_greedy ma n k s') s")
      case None
      then show ?thesis using a by auto
    next
      case (Some r)
      then have "r = res" using a by simp
      then obtain s' where s': "length s' \<le> length s"
        "(if length s' = length s then None else repeat_greedy ma n k s') = Some res"
        using consumingD [OF assms Some] by blast
      then have "repeat_greedy ma n k s' = Some res"
        by (simp split: if_splits)
      then obtain s'' where "length s'' \<le> length s'" "k s'' = Some res"
        using consumingD [OF Suc] by blast
      then show ?thesis using s'(1) by (meson order_trans)
    qed
  qed
qed

lemma consuming_repeat_lazy:
  assumes "consuming ma"
  shows "consuming (repeat_lazy ma n)"
proof (induction n)
  case 0
  then show ?case by (auto simp add: consuming_def)
next
  case (Suc n)
  show ?case
    unfolding consuming_def
  proof (intro allI impI)
    fix k :: cont and s res :: string
    assume a: "repeat_lazy ma (Suc n) k s = Some res"
    show "\<exists>s'. length s' \<le> length s \<and> k s' = Some res"
    proof (cases "k s")
      case (Some r)
      then show ?thesis using a by auto
    next
      case None
      then have "ma (\<lambda>s'. if length s' = length s then None else repeat_lazy ma n k s') s = Some res"
        using a by simp
      then obtain s' where s': "length s' \<le> length s"
        "(if length s' = length s then None else repeat_lazy ma n k s') = Some res"
        using consumingD [OF assms] by blast
      then have "repeat_lazy ma n k s' = Some res"
        by (simp split: if_splits)
      then obtain s'' where "length s'' \<le> length s'" "k s'' = Some res"
        using consumingD [OF Suc] by blast
      then show ?thesis using s'(1) by (meson order_trans)
    qed
  qed
qed

lemma consuming_compile: "consuming (compile ic da r)"
proof (induction r)
  case (Seq a b)
  show ?case
    unfolding consuming_def
  proof (intro allI impI)
    fix k :: cont and s res :: string
    assume "compile ic da (Seq a b) k s = Some res"
    then have "compile ic da a (\<lambda>s'. compile ic da b k s') s = Some res"
      by simp
    then obtain s' where s': "length s' \<le> length s" "compile ic da b k s' = Some res"
      using consumingD [OF Seq(1)] by blast
    then obtain s'' where "length s'' \<le> length s'" "k s'' = Some res"
      using consumingD [OF Seq(2)] by blast
    then show "\<exists>s'. length s' \<le> length s \<and> k s' = Some res"
      using s'(1) by (meson order_trans)
  qed
next
  case (Alt a b)
  show ?case
    unfolding consuming_def
  proof (intro allI impI)
    fix k :: cont and s res :: string
    assume "compile ic da (Alt a b) k s = Some res"
    then have "compile ic da a k s = Some res \<or> compile ic da b k s = Some res"
      by (simp split: option.splits)
    then show "\<exists>s'. length s' \<le> length s \<and> k s' = Some res"
      using consumingD [OF Alt(1)] consumingD [OF Alt(2)] by blast
  qed
next
  case (Opt a)
  show ?case
    unfolding consuming_def
  proof (intro allI impI)
    fix k :: cont and s res :: string
    assume "compile ic da (Opt a) k s = Some res"
    then have "compile ic da a (\<lambda>s'. if length s' = length s then None else k s') s = Some res
        \<or> k s = Some res"
      by (simp split: option.splits)
    then show "\<exists>s'. length s' \<le> length s \<and> k s' = Some res"
    proof
      assume "compile ic da a (\<lambda>s'. if length s' = length s then None else k s') s = Some res"
      then obtain s' where "length s' \<le> length s" "(if length s' = length s then None else k s') = Some res"
        using consumingD [OF Opt] by blast
      then show ?thesis by (auto split: if_splits)
    next
      assume "k s = Some res"
      then show ?thesis by auto
    qed
  qed
next
  case (Star a)
  show ?case
    unfolding consuming_def
  proof (intro allI impI)
    fix k :: cont and s res :: string
    assume "compile ic da (Star a) k s = Some res"
    then have "repeat_greedy (compile ic da a) (Suc (length s)) k s = Some res"
      by (simp only: compile.simps)
    then show "\<exists>s'. length s' \<le> length s \<and> k s' = Some res"
      using consumingD [OF consuming_repeat_greedy [OF Star]] by blast
  qed
next
  case (StarLazy a)
  show ?case
    unfolding consuming_def
  proof (intro allI impI)
    fix k :: cont and s res :: string
    assume "compile ic da (StarLazy a) k s = Some res"
    then have "repeat_lazy (compile ic da a) (Suc (length s)) k s = Some res"
      by (simp only: compile.simps)
    then show "\<exists>s'. length s' \<le> length s \<and> k s' = Some res"
      using consumingD [OF consuming_repeat_lazy [OF StarLazy]] by blast
  qed
next
  case (Group a)
  then show ?case by (simp add: consuming_def)
next
  case (Lookahead a)
  show ?case
    unfolding consuming_def
    by (auto split: option.splits)
next
  case EndAnchor
  show ?case
    unfolding consuming_def
    by (auto split: if_splits)
next
  case Eps
  show ?case
    unfolding consuming_def by auto
qed (simp_all add: consuming_char_matcher)

lemma compile_rest_length:
  "compile ic da r Some s = Some rest \<Longrightarrow> length rest \<le> length s"
  using consumingD [OF consuming_compile, of ic da r Some s rest] by auto

lemma find_match_Some:
  "find_match re s = Some (i, n) \<Longrightarrow>
     i \<le> length s \<and> (\<exists>rest. compile (ignoreCase re) (dotAll re) (source re) Some (drop i s) = Some rest
        \<and> n = length (drop i s) - length rest \<and> length rest \<le> length (drop i s))"
proof (induction s arbitrary: i)
  case Nil
  then show ?case
    by (subst (asm) find_match.simps) (auto split: option.splits dest: compile_rest_length)
next
  case (Cons c cs)
  show ?case
  proof (cases "compile (ignoreCase re) (dotAll re) (source re) Some (c # cs)")
    case (Some rest)
    then have "i = 0" "n = length (c # cs) - length rest"
      using Cons.prems by (subst (asm) find_match.simps, simp)+
    then show ?thesis using Some compile_rest_length [OF Some] by simp
  next
    case None
    then obtain i' where "find_match re cs = Some (i', n)" "i = Suc i'"
      using Cons.prems by (subst (asm) find_match.simps) auto
    then show ?thesis using Cons.IH [of i'] by simp
  qed
qed

lemma find_match_bounds: "find_match re s = Some (i, n) \<Longrightarrow> i + n \<le> length s"
  using find_match_Some [of re s i n] by auto

lemma match_from_elems:
  "m \<in> set (match_from re s j) \<Longrightarrow>
     \<exists>j' i n. find_match re (drop j' s) = Some (i, n) \<and> m = take n (drop (j' + i) s)"
proof (induction re s j rule: match_from.induct)
  case (1 re s lastIndex)
  show ?case
  proof (cases "lastIndex > length s")
    case True
    then show ?thesis using "1.prems" by (subst (asm) match_from.simps) simp
  next
    case False
    show ?thesis
    proof (cases "find_match re (drop lastIndex s)")
      case None
      then show ?thesis using "1.prems" False by (subst (asm) match_from.simps) simp
    next
      case (Some p)
      obtain i n where p: "p = (i, n)" by (cases p)
      have "m = take n (drop (lastIndex + i) s)
          \<or> m \<in> set (match_from re s (if n = 0 then lastIndex + i + n + 1 else lastIndex + i + n))"
        using "1.prems" False Some p by (subst (asm) match_from.simps) (simp add: Let_def)
      then show ?thesis
      proof
        assume "m = take n (drop (lastIndex + i) s)"
        then show ?thesis using Some p by blast
      next
        assume "m \<in> set (match_from re s (if n = 0 then lastIndex + i + n + 1 else lastIndex + i + n))"
        then show ?thesis
          by (rule "1.IH" [OF False Some p [symmetric] refl])
      qed
    qed
  qed
qed

lemma compile_literal_head:
  assumes "compile ic da (Seq (Seq (Chr c) a) b) Some s = Some rest"
  shows "\<exists>x xs. s = x # xs \<and> canonicalize ic x = canonicalize ic c \<and> length rest \<le> length xs"
proof -
  obtain x xs where x: "s = x # xs" "canonicalize ic x = canonicalize ic c"
      "compile ic da a (\<lambda>s'. compile ic da b Some s') xs = Some rest"
    using assms by (auto simp add: char_matcher_def split: list.splits if_splits)
  then have "compile ic da (Seq a b) Some xs = Some rest"
    by simp
  then show ?thesis using x(1,2) compile_rest_length by blast
qed

lemma match_literal_head:
  assumes "m \<in> set (match_from re s 0)" and "source re = Seq (Seq (Chr c) a) b"
  shows "\<exists>x xs. m = x # xs \<and> canonicalize (ignoreCase re) x = canonicalize (ignoreCase re) c"
proof -
  obtain j i n where f: "find_match re (drop j s) = Some (i, n)" and m: "m = take n (drop (j + i) s)"
    using match_from_elems [OF assms(1)] by blast
  obtain rest where r: "compile (ignoreCase re) (dotAll re) (source re) Some (drop i (drop j s)) = Some rest"
      "n = length (drop i (drop j s)) - length rest"
    using find_match_Some [OF f] by blast
  then obtain x xs where x: "drop i (drop j s) = x # xs"
      "canonicalize (ignoreCase re) x = canonicalize (ignoreCase re) c" "length rest \<le> length xs"
    using compile_literal_head [of "ignoreCase re" "dotAll re" c a b "drop i (drop j s)" rest] assms(2)
    by auto
  have d: "drop (j + i) s = x # xs"
    using x(1) by (simp add: add.commute)
  have "length (drop i (drop j s)) = Suc (length xs)"
    using x(1) by simp
  then have "n = Suc (length xs - length rest)"
    using r(2) x(3) by arith
  then show ?thesis using m d x(2) by auto
qed

lemma canonical_g: "canonicalize True x = canonicalize True CHR ''g'' \<Longrightarrow> x = CHR ''g'' \<or> x = CHR ''G''"
  by (simp add: canonicalize_def toUpperChar_def lower_letters_def upper_letters_def split: if_splits)

lemma canonical_a: "canonicalize True x = canonicalize True CHR ''a'' \<Longrightarrow> x = CHR ''a'' \<or> x = CHR ''A''"
  by (simp add: canonicalize_def toUpperChar_def lower_letters_def upper_letters_def split: if_splits)

lemma gwt_match_head:
  assumes "m \<in> set (match_from pattern_gwt s 0)"
  shows "\<exists>cs. m = CHR ''g'' # cs \<or> m = CHR ''G'' # cs"
proof -
  obtain x xs where "m = x # xs" "canonicalize True x = canonicalize True CHR ''g''"
    using match_literal_head [OF assms, of "CHR ''g''"]
    by (auto simp add: pattern_gwt_def seqs_def lit_def)
  then show ?thesis using canonical_g by blast
qed

lemma bullet_match_head:
  assumes "m \<in> set (match_from pattern_bullet s 0)"
  shows "\<exists>cs. m = CHR ''*'' # cs"
  using match_literal_head [OF assms, of "CHR ''*''"]
  by (auto simp add: pattern_bullet_def seqs_def lit_def canonicalize_def)

lemma replace_first_keeps_head:
  assumes "source re = Seq (Seq (Chr CHR ''a'') a) b" and "ignoreCase re"
    and "x \<noteq> CHR ''a''" and "x \<noteq> CHR ''A''"
  shows "\<exists>cs'. replace_first (x # cs) re = x # cs'"
proof (cases "find_match re (x # cs)")
  case None
  then show ?thesis by (simp add: replace_first_def)
next
  case (Some p)
  obtain i n where p: "p = (i, n)" by (cases p)
  have "compile (ignoreCase re) (dotAll re) (source re) Some (x # cs) = None"
  proof (cases "compile (ignoreCase re) (dotAll re) (source re) Some (x # cs)")
    case None
    then show ?thesis .
  next
    case (Some rest)
    then have "canonicalize True x = canonicalize True CHR ''a''"
      using compile_literal_head [of "ignoreCase re" "dotAll re" "CHR ''a''" a b "x # cs" rest] assms(1,2)
      by auto
    then show ?thesis using canonical_a assms(3,4) by blast
  qed
  then obtain i' where "i = Suc i'"
    using Some p by (subst (asm) find_match.simps) auto
  then show ?thesis using Some p by (simp add: replace_first_def)
qed

lemma trim_keeps_head:
  assumes "\<not> isWhiteSpace x"
  shows "\<exists>cs'. trim (x # cs) = x # cs'"
proof -
  have "\<exists>ys. dropWhile isWhiteSpace (rev cs @ [x]) = ys @ [x]"
  proof (cases "\<forall>c \<in> set cs. isWhiteSpace c")
    case True
    then have "dropWhile isWhiteSpace (rev cs @ [x]) = [] @ [x]"
      using assms by (simp add: dropWhile_append)
    then show ?thesis by blast
  next
    case False
    then have "dropWhile isWhiteSpace (rev cs @ [x]) = dropWhile isWhiteSpace (rev cs) @ [x]"
      by (simp add: dropWhile_append)
    then show ?thesis by blast
  qed
  then obtain ys where "dropWhile isWhiteSpace (rev cs @ [x]) = ys @ [x]"
    by blast
  then have "trim (x # cs) = x # rev ys"
    using assms by (simp add: trim_def)
  then show ?thesis by blast
qed

lemma cleaned_keeps_head:
  assumes "x \<noteq> CHR ''a''" and "x \<noteq> CHR ''A''" and "\<not> isWhiteSpace x"
  shows "\<exists>cs'. cleaned (x # cs) = x # cs'"
proof -
  obtain cs1 where 1: "replace_first (x # cs) label_long = x # cs1"
    using replace_first_keeps_head [of label_long _ _ x cs] assms(1,2)
    by (auto simp add: label_long_def seqs_def lit_def)
  obtain cs2 where 2: "replace_first (x # cs1) label_short = x # cs2"
    using replace_first_keeps_head [of label_short _ _ x cs1] assms(1,2)
    by (auto simp add: label_short_def seqs_def lit_def)
  show ?thesis
    using trim_keeps_head [OF assms(3), of cs2] 1 2 by (simp add: cleaned_def)
qed

lemma gwt_bullet_never_equal:
  assumes "m1 \<in> set (match_from pattern_gwt s 0)" and "m2 \<in> set (match_from pattern_bullet s 0)"
  shows "cleaned m1 \<noteq> cleaned m2"
proof -
  obtain c1 where c1: "m1 = CHR ''g'' # c1 \<or> m1 = CHR ''G'' # c1"
    using gwt_match_head [OF assms(1)] by blast
  obtain c2 where c2: "m2 = CHR ''*'' # c2"
    using bullet_match_head [OF assms(2)] by blast
  have "\<exists>cs. cleaned m1 = CHR ''g'' # cs \<or> cleaned m1 = CHR ''G'' # cs"
    using c1 cleaned_keeps_head [of "CHR ''g''" c1] cleaned_keeps_head [of "CHR ''G''" c1]
    by (auto simp add: isWhiteSpace_def)
  moreover have "\<exists>cs. cleaned m2 = CHR ''*'' # cs"
    using c2 cleaned_keeps_head [of "CHR ''*''" c2] by (auto simp add: isWhiteSpace_def)
  ultimately show ?thesis by auto
qed


section \<open>Facts about the handlers\<close>

text \<open>On a list of named transitions the callback of \<^verbatim>\<open>find\<close> never throws, and
  \<^verbatim>\<open>find\<close> returns the first transition that answers to the value.\<close>

lemma named_transition_cases:
  assumes "named_transition x"
  obtains n where "\<not> nullish x" and "truthy x" and "own_prop x ''name'' = JStr n"
  using assms by (auto simp add: named_transition_def split: json.splits)

lemma transition_matches_named:
  assumes "named_transition x"
  shows "transition_matches srv (JStr t) x = Inr (answers_to srv t x)"
proof -
  obtain n where n: "\<not> nullish x" "own_prop x ''name'' = JStr n"
    using assms by (rule named_transition_cases)
  then show ?thesis
    by (simp add: transition_matches_def get_prop_def bind_def call_toLowerCase_def strict_eq_JStr
        answers_to_def del: own_prop.simps)
qed

lemma array_find_is_find:
  assumes "\<forall>x \<in> set ts. named_transition x"
  shows "array_find (transition_matches srv (JStr t)) ts =
     Inr (case find (answers_to srv t) ts of None \<Rightarrow> JUndefined | Some x \<Rightarrow> x)"
  using assms by (induction ts) (simp_all add: transition_matches_named)

















lemma answering_axios: "axios (answering data) log r = Inr data"
  by (simp add: answering_def)


lemma answering_baseUrl: "baseUrl (config (answering data)) = ''https://example.atlassian.net''"
  by (simp add: answering_def demo_config_def)

section \<open>The dispatcher (C1, C9)\<close>




text \<open>
  Claim C9. A call of \<^verbatim>\<open>jira_search_issues\<close> issues one request, a GET of
  \<^verbatim>\<open>/search\<close>, whose parameter \<^verbatim>\<open>maxResults\<close> is never 0, and is 50 whenever the
  argument \<^verbatim>\<open>maxResults\<close> is falsy (0, absent, null, false or the empty string).
\<close>

theorem search_maxResults_default:
  "\<exists>r p. snd (callTool srv ''jira_search_issues'' args log) = log @ [r]
     \<and> req_method r = GET
     \<and> req_url r = baseUrl (config srv) @ ''/rest/api/3/search''
     \<and> req_params r = Some p
     \<and> own_prop p ''maxResults'' \<noteq> JNum 0
     \<and> (\<not> truthy (opt_prop args ''maxResults'') \<longrightarrow> own_prop p ''maxResults'' = JNum 50)"
  by (auto simp add: callTool_def dispatch_def searchIssues_def makeJiraRequest_def or_else_def Let_def
      split: prod.splits sum.splits)

theorem search_maxResults_default_witness:
  "\<exists>r p. snd (callTool (answering (JObj [(''issues'', JArr [])])) ''jira_search_issues''
              (JObj [(''jql'', JStr ''project = PROJ''), (''maxResults'', JNum 0)]) []) = [r]
     \<and> req_params r = Some p
     \<and> own_prop p ''maxResults'' = JNum 50"
proof -
  have h: "\<not> truthy (opt_prop (JObj [(''jql'', JStr ''project = PROJ''), (''maxResults'', JNum 0)]) ''maxResults'')"
    by (simp add: opt_prop_def)
  show ?thesis
    using search_maxResults_default [of "answering (JObj [(''issues'', JArr [])])"
        "JObj [(''jql'', JStr ''project = PROJ''), (''maxResults'', JNum 0)]" "[]"] h
    by auto
qed

section \<open>The acceptance-criteria extractor (C2, C3)\<close>

text \<open>
  Claim C2, as amended. For every description string the extractor returns the cleaned,
  non-empty matches of the five patterns, taken in pattern order, with every string kept
  only where it is first seen: the result has no duplicates. When none of the five
  patterns matches, the result is the empty list. Two matches are duplicates only when
  their cleaned strings are equal, and a match of the Given/When/Then pattern and a match
  of the bullet pattern never are: cleaned, the first still starts with the letter g and
  the second with its marker.
\<close>

theorem extract_first_seen:
  "extractAcceptanceCriteria (JStr s) =
     Inr (first_seen (filter (\<lambda>c. c \<noteq> []) (map cleaned (all_matches s))))
   \<and> (\<exists>cs. extractAcceptanceCriteria (JStr s) = Inr cs \<and> distinct cs)
   \<and> ((\<forall>pattern \<in> set patterns. match_all s pattern = None)
        \<longrightarrow> extractAcceptanceCriteria (JStr s) = Inr [])
   \<and> (\<forall>m1 \<in> set (match_from pattern_gwt s 0). \<forall>m2 \<in> set (match_from pattern_bullet s 0).
          cleaned m1 \<noteq> cleaned m2)"
proof -
  have a: "extractAcceptanceCriteria (JStr s) =
      Inr (first_seen (filter (\<lambda>c. c \<noteq> []) (map cleaned (all_matches s))))"
  proof (cases "s = []")
    case True
    then show ?thesis by (simp add: extractAcceptanceCriteria_def no_match_in_empty)
  next
    case False
    then show ?thesis
      by (simp add: extractAcceptanceCriteria_def foldl_collect foldl_push_match all_matches_def)
  qed
  have n: "match_from pattern s 0 = []" if "match_all s pattern = None" for pattern
    using that by (cases "match_from pattern s 0") (simp_all add: match_all_def)
  have b: "all_matches s = []" if "\<forall>pattern \<in> set patterns. match_all s pattern = None"
    using that n by (simp add: all_matches_def)
  show ?thesis
    using a b gwt_bullet_never_equal by (auto simp add: distinct_first_seen)
qed

text \<open>A description that no pattern matches, and one in which the pattern
  \<^verbatim>\<open>ac\<close> and the bullet pattern give the same cleaned string, kept once.\<close>

theorem extract_first_seen_witness:
  "extractAcceptanceCriteria (JStr ''hello world'') = Inr []
   \<and> map cleaned (all_matches ''AC: * foo'') = [''* foo'', ''* foo'']
   \<and> extractAcceptanceCriteria (JStr ''AC: * foo'') = Inr [''* foo'']"
proof -
  have h: "\<forall>pattern \<in> set patterns. match_all ''hello world'' pattern = None"
    by code_simp
  have m: "map cleaned (all_matches ''AC: * foo'') = [''* foo'', ''* foo'']"
    by code_simp
  have a: "extractAcceptanceCriteria (JStr ''hello world'') = Inr []"
    using extract_first_seen [of "''hello world''"] h by blast
  have b: "extractAcceptanceCriteria (JStr ''AC: * foo'') = Inr [''* foo'']"
    using extract_first_seen [of "''AC: * foo''"] m by simp
  show ?thesis using a m b by simp
qed

text \<open>
  Claim C2 as stated fails: for a description made of a Given/When/Then sentence and a
  bullet line with the same sentence, the sentence is not kept once. The match of the
  third pattern runs to the end of the description, the match of the bullet pattern keeps
  its marker, and both are in the result.
\<close>

theorem extract_gwt_bullet_counterexample:
  "extractAcceptanceCriteria (JStr ''Given a when b then c\<newline>* Given a when b then c'') =
     Inr [''Given a when b then c\<newline>* Given a when b then c'', ''* Given a when b then c'']"
  by code_simp

text \<open>
  Claim C3 fails on the code. The cleaning step cuts the first occurrence of the label
  expressions wherever it stands in the match, not only at its start: in the bullet
  \<^verbatim>\<open>* Track it\<close> the letters \<^verbatim>\<open>ac\<close> of \<^verbatim>\<open>Track\<close> are cut, and the pattern
  \<^verbatim>\<open>ac\<close> itself matches inside the word.
\<close>

theorem cleaned_cuts_inside_words:
  "cleaned ''* Track it'' = ''* Trk it''
   \<and> extractAcceptanceCriteria (JStr ''* Track it'') = Inr [''k it'', ''* Trk it'']"
  by code_simp

section \<open>Search Issues and Get Issue (C7, C8)\<close>

text \<open>
  Claim C7. When the remote service answers the search with a body whose \<^verbatim>\<open>issues\<close>
  is the empty array, or is missing or null, the call returns the report
  \<^verbatim>\<open>Found 0 issues:\<close> followed by an empty line and nothing else.
\<close>

theorem search_no_issues:
  assumes "\<And>r. axios srv log r = Inr data"
    and "\<not> nullish data"
    and "own_prop data ''issues'' = JArr [] \<or> nullish (own_prop data ''issues'')"
  shows "fst (callTool srv ''jira_search_issues'' args log) =
     Inr (text_result (''Found 0 issues:'' @ [nl, nl]))"
proof -
  have "opt_map ''data.issues?'' (search_issue srv) (own_prop data ''issues'') = Inr []"
    using assms(3) by (auto simp add: opt_map_def)
  then have "searchIssues_text srv data = Inr (''Found 0 issues:'' @ [nl, nl])"
    using assms(2) by (simp add: searchIssues_text_def get_prop_def bind_def digit_char_def)
  then show ?thesis
    using assms(1)
    by (simp add: callTool_def dispatch_def searchIssues_def makeJiraRequest_def Let_def bind_def)
qed

theorem search_no_issues_witness:
  "fst (callTool (answering (JObj [(''total'', JNum 0), (''issues'', JArr [])])) ''jira_search_issues''
         (JObj [(''jql'', JStr ''project = NONE'')]) []) =
     Inr (text_result ''Found 0 issues:\<newline>\<newline>'')
   \<and> fst (callTool (answering (JObj [(''total'', JNum 0)])) ''jira_search_issues''
         (JObj [(''jql'', JStr ''project = NONE'')]) []) =
     Inr (text_result ''Found 0 issues:\<newline>\<newline>'')"
proof -
  have a: "fst (callTool (answering (JObj [(''total'', JNum 0), (''issues'', JArr [])])) ''jira_search_issues''
         (JObj [(''jql'', JStr ''project = NONE'')]) []) = Inr (text_result (''Found 0 issues:'' @ [nl, nl]))"
    by (rule search_no_issues [where data = "JObj [(''total'', JNum 0), (''issues'', JArr [])]"])
      (simp_all add: answering_axios)
  have b: "fst (callTool (answering (JObj [(''total'', JNum 0)])) ''jira_search_issues''
         (JObj [(''jql'', JStr ''project = NONE'')]) []) = Inr (text_result (''Found 0 issues:'' @ [nl, nl]))"
    by (rule search_no_issues [where data = "JObj [(''total'', JNum 0)]"])
      (simp_all add: answering_axios)
  show ?thesis using a b by (simp add: nl_def)
qed

text \<open>
  Claim C8. When the remote service answers Get Issue with an issue (a body with its
  \<^verbatim>\<open>fields\<close>) in which the rendered description and the raw description are both
  absent or null, the extractor is applied to the missing description and returns the
  empty list, and the call returns the report, with \<^verbatim>\<open>None found\<close> under the
  heading of the acceptance criteria.
\<close>

theorem getIssue_no_description:
  assumes "\<And>r. axios srv log r = Inr data"
    and "\<not> nullish data"
    and "\<not> nullish (own_prop data ''fields'')"
    and "nullish (opt_prop (own_prop data ''renderedFields'') ''description'')"
    and "nullish (opt_prop (own_prop data ''fields'') ''description'')"
  shows "extractAcceptanceCriteria
           (or_else (opt_prop (own_prop data ''renderedFields'') ''description'')
                    (opt_prop (own_prop data ''fields'') ''description'')) = Inr []
     \<and> fst (callTool srv ''jira_get_issue'' args log) =
         Inr (text_result (concat
           [''**'', ToString (own_prop data ''key''), '': '',
            ToString (own_prop (own_prop data ''fields'') ''summary''), ''**'', [nl, nl],
            ''**Status:** '', ToString (opt_prop (own_prop (own_prop data ''fields'') ''status'') ''name''), [nl],
            ''**Assignee:** '',
            ToString (or_else (opt_prop (own_prop (own_prop data ''fields'') ''assignee'') ''displayName'')
                              (JStr ''Unassigned'')), [nl],
            ''**Priority:** '', ToString (opt_prop (own_prop (own_prop data ''fields'') ''priority'') ''name''), [nl],
            ''**URL:** '', baseUrl (config srv), ''/browse/'', ToString (own_prop data ''key''), [nl, nl],
            ''**Description:**'', [nl],
            ToString (opt_prop (own_prop data ''fields'') ''description''), [nl, nl],
            ''**Acceptance Criteria:**'', [nl],
            ''None found'', [nl, nl],
            ''**Created:** '', toLocaleDateString srv (own_prop (own_prop data ''fields'') ''created''), [nl],
            ''**Updated:** '', toLocaleDateString srv (own_prop (own_prop data ''fields'') ''updated'')]))"
proof -
  let ?d = "or_else (opt_prop (own_prop data ''renderedFields'') ''description'')
                    (opt_prop (own_prop data ''fields'') ''description'')"
  have d: "?d = opt_prop (own_prop data ''fields'') ''description''"
    using assms(4) by (simp add: or_else_def nullish_not_truthy)
  have e: "extractAcceptanceCriteria ?d = Inr []"
    unfolding d using assms(5) by (simp add: extractAcceptanceCriteria_def nullish_not_truthy)
  have "getIssue_text srv data = Inr (concat
           [''**'', ToString (own_prop data ''key''), '': '',
            ToString (own_prop (own_prop data ''fields'') ''summary''), ''**'', [nl, nl],
            ''**Status:** '', ToString (opt_prop (own_prop (own_prop data ''fields'') ''status'') ''name''), [nl],
            ''**Assignee:** '',
            ToString (or_else (opt_prop (own_prop (own_prop data ''fields'') ''assignee'') ''displayName'')
                              (JStr ''Unassigned'')), [nl],
            ''**Priority:** '', ToString (opt_prop (own_prop (own_prop data ''fields'') ''priority'') ''name''), [nl],
            ''**URL:** '', baseUrl (config srv), ''/browse/'', ToString (own_prop data ''key''), [nl, nl],
            ''**Description:**'', [nl],
            ToString (opt_prop (own_prop data ''fields'') ''description''), [nl, nl],
            ''**Acceptance Criteria:**'', [nl],
            ''None found'', [nl, nl],
            ''**Created:** '', toLocaleDateString srv (own_prop (own_prop data ''fields'') ''created''), [nl],
            ''**Updated:** '', toLocaleDateString srv (own_prop (own_prop data ''fields'') ''updated'')])"
    using assms(2,3) e d
    by (simp add: getIssue_text_def get_prop_def bind_def Let_def del: own_prop.simps)
  then show ?thesis
    using assms(1) e
    by (simp add: callTool_def dispatch_def getIssue_def makeJiraRequest_def Let_def bind_def
        del: own_prop.simps)
qed

theorem getIssue_no_description_witness:
  "fst (callTool (answering (JObj [(''key'', JStr ''PROJ-1''),
                                    (''fields'', JObj [(''summary'', JStr ''Fix login''),
                                                       (''status'', JObj [(''name'', JStr ''Open'')]),
                                                       (''description'', JNull)])]))
         ''jira_get_issue'' (JObj [(''issueKey'', JStr ''PROJ-1'')]) []) =
     Inr (text_result
       (''**PROJ-1: Fix login**\<newline>\<newline>'' @
        ''**Status:** Open\<newline>'' @
        ''**Assignee:** Unassigned\<newline>'' @
        ''**Priority:** undefined\<newline>'' @
        ''**URL:** https://example.atlassian.net/browse/PROJ-1\<newline>\<newline>'' @
        ''**Description:**\<newline>'' @
        ''null\<newline>\<newline>'' @
        ''**Acceptance Criteria:**\<newline>'' @
        ''None found\<newline>\<newline>'' @
        ''**Created:** undefined\<newline>'' @
        ''**Updated:** undefined''))"
proof -
  let ?data = "JObj [(''key'', JStr ''PROJ-1''),
                     (''fields'', JObj [(''summary'', JStr ''Fix login''),
                                        (''status'', JObj [(''name'', JStr ''Open'')]),
                                        (''description'', JNull)])]"
  have h: "\<not> nullish ?data" "\<not> nullish (own_prop ?data ''fields'')"
    "nullish (opt_prop (own_prop ?data ''renderedFields'') ''description'')"
    "nullish (opt_prop (own_prop ?data ''fields'') ''description'')"
    by (simp_all add: opt_prop_def)
  show ?thesis
    using getIssue_no_description [of "answering ?data" "[]" ?data "JObj [(''issueKey'', JStr ''PROJ-1'')]",
        OF answering_axios h]
    by (simp add: opt_prop_def or_else_def nl_def answering_def demo_config_def)
qed

section \<open>Update Issue (C4, C5, C10)\<close>

text \<open>
  Claim C4. Update Issue is called with an issue key and only a transition value, a
  non-empty string; the remote service answers with a list of named transitions none of
  which answers to the value: no name equals it once both are mapped to lower case by
  the engine (whatever its case mapping is), and no id equals it. Then the call issues
  one request, the GET of the transitions (so no POST and no PUT), and returns a normal
  report whose only line says that the status change failed because the transition was
  not found. With an engine whose case mapping is right on ASCII strings, a transition
  with an ASCII name that differs from an ASCII value in more than the case of its
  letters, and with another id, does not answer to it.
\<close>

theorem update_transition_not_found:
  assumes "own_prop (JObj kvs) ''transition'' = JStr t" and "t \<noteq> []"
    and "\<not> truthy (own_prop (JObj kvs) ''assignee'')"
    and "\<not> truthy (own_prop (JObj kvs) ''summary'')"
    and "\<not> truthy (own_prop (JObj kvs) ''description'')"
    and "\<not> truthy (own_prop (JObj kvs) ''priority'')"
    and "\<And>r. axios srv log r = Inr data"
    and "own_prop data ''transitions'' = JArr ts"
    and "\<forall>x \<in> set ts. named_transition x \<and> \<not> answers_to srv t x"
  shows "(\<exists>r. callTool srv ''jira_update_issue'' (JObj kvs) log =
       (Inr (text_result (''Update results for '' @ ToString (own_prop (JObj kvs) ''issueKey'') @ '':'' @ [nl, nl]
              @ cross_mark @ '' Failed to change status: '' @ transition_not_found (JStr t) @ [nl])),
        log @ [r])
     \<and> req_method r = GET
     \<and> req_url r = baseUrl (config srv) @ ''/rest/api/3/issue/''
                     @ ToString (own_prop (JObj kvs) ''issueKey'') @ ''/transitions'')
     \<and> (ascii_case_mapping (toLowerCase srv) \<longrightarrow>
          (\<forall>x n. own_prop x ''name'' = JStr n \<and> is_ascii n \<and> is_ascii t
                   \<and> ascii_toLowerCase n \<noteq> ascii_toLowerCase t \<and> own_prop x ''id'' \<noteq> JStr t
                 \<longrightarrow> \<not> answers_to srv t x))"
proof -
  let ?key = "own_prop (JObj kvs) ''issueKey''"
  let ?url = "baseUrl (config srv) @ ''/rest/api/3/issue/'' @ ToString ?key @ ''/transitions''"
  have d: "\<not> nullish data"
    using assms(8) by (cases data) auto
  have "find (answers_to srv t) ts = None"
    using assms(9) by (simp add: find_None_iff)
  then have f: "array_find (transition_matches srv (JStr t)) ts = Inr JUndefined"
    using array_find_is_find [of ts srv t] assms(9) by simp
  have "\<exists>r. change_status srv ?key (JStr t) log = (Inl (Error (transition_not_found (JStr t))), log @ [r])
      \<and> req_method r = GET \<and> req_url r = ?url"
    using assms(7,8) d f
    by (simp add: change_status_def makeJiraRequest_def no_options_def Let_def get_prop_def bind_def
        opt_find_def del: own_prop.simps)
  then obtain r where r:
    "change_status srv ?key (JStr t) log = (Inl (Error (transition_not_found (JStr t))), log @ [r])"
    "req_method r = GET" "req_url r = ?url"
    by blast
  have "callTool srv ''jira_update_issue'' (JObj kvs) log =
       (Inr (text_result (''Update results for '' @ ToString ?key @ '':'' @ [nl, nl]
              @ cross_mark @ '' Failed to change status: '' @ transition_not_found (JStr t) @ [nl])),
        log @ [r])"
    using assms(1-6) r(1)
    by (simp add: callTool_def dispatch_def updateIssue_def update_fields_def Let_def cross_mark_def
        del: own_prop.simps)
  then have main: "\<exists>r. callTool srv ''jira_update_issue'' (JObj kvs) log =
       (Inr (text_result (''Update results for '' @ ToString ?key @ '':'' @ [nl, nl]
              @ cross_mark @ '' Failed to change status: '' @ transition_not_found (JStr t) @ [nl])),
        log @ [r])
     \<and> req_method r = GET \<and> req_url r = ?url"
    using r(2,3) by blast
  have tie: "ascii_case_mapping (toLowerCase srv) \<longrightarrow>
          (\<forall>x n. own_prop x ''name'' = JStr n \<and> is_ascii n \<and> is_ascii t
                   \<and> ascii_toLowerCase n \<noteq> ascii_toLowerCase t \<and> own_prop x ''id'' \<noteq> JStr t
                 \<longrightarrow> \<not> answers_to srv t x)"
    by (simp add: answers_to_def ascii_case_mapping_def del: own_prop.simps)
  show ?thesis
    using main tie by (rule conjI)
qed

text \<open>The transition \<^verbatim>\<open>NonexistentStatus\<close> against the list \<^verbatim>\<open>[{id:"1",name:"Done"}]\<close>.\<close>

theorem update_transition_not_found_witness:
  "(\<exists>r. callTool (answering (JObj [(''transitions'', JArr [JObj [(''id'', JStr ''1''), (''name'', JStr ''Done'')]])]))
          ''jira_update_issue''
          (JObj [(''issueKey'', JStr ''PROJ-1''), (''transition'', JStr ''NonexistentStatus'')]) [] =
       (Inr (text_result (''Update results for PROJ-1:\<newline>\<newline>'' @ cross_mark
              @ '' Failed to change status: Transition '' @ [CHR 0x22] @ ''NonexistentStatus'' @ [CHR 0x22]
              @ '' not found. Use jira_get_transitions to see available options.\<newline>'')),
        [r])
     \<and> req_method r = GET
     \<and> req_url r = ''https://example.atlassian.net/rest/api/3/issue/PROJ-1/transitions'')
   \<and> \<not> answers_to (answering (JObj [(''transitions'', JArr [JObj [(''id'', JStr ''1''), (''name'', JStr ''Done'')]])]))
         ''NonexistentStatus'' (JObj [(''id'', JStr ''1''), (''name'', JStr ''Done'')])"
proof -
  let ?ts = "[JObj [(''id'', JStr ''1''), (''name'', JStr ''Done'')]]"
  let ?data = "JObj [(''transitions'', JArr ?ts)]"
  let ?kvs = "[(''issueKey'', JStr ''PROJ-1''), (''transition'', JStr ''NonexistentStatus'')]"
  have h: "own_prop (JObj ?kvs) ''transition'' = JStr ''NonexistentStatus''" "''NonexistentStatus'' \<noteq> []"
    "\<not> truthy (own_prop (JObj ?kvs) ''assignee'')" "\<not> truthy (own_prop (JObj ?kvs) ''summary'')"
    "\<not> truthy (own_prop (JObj ?kvs) ''description'')" "\<not> truthy (own_prop (JObj ?kvs) ''priority'')"
    by simp_all
  have d: "own_prop ?data ''transitions'' = JArr ?ts"
    by simp
  have n: "\<forall>x \<in> set ?ts. named_transition x \<and> \<not> answers_to (answering ?data) ''NonexistentStatus'' x"
    by code_simp
  note res = update_transition_not_found [of ?kvs "''NonexistentStatus''" "answering ?data" "[]" ?data ?ts,
        OF h answering_axios d n]
  have "\<exists>r. callTool (answering ?data) ''jira_update_issue'' (JObj ?kvs) [] =
       (Inr (text_result (''Update results for '' @ ToString (own_prop (JObj ?kvs) ''issueKey'') @ '':'' @ [nl, nl]
              @ cross_mark @ '' Failed to change status: '' @ transition_not_found (JStr ''NonexistentStatus'')
              @ [nl])),
        [] @ [r])
     \<and> req_method r = GET
     \<and> req_url r = baseUrl (config (answering ?data)) @ ''/rest/api/3/issue/''
                     @ ToString (own_prop (JObj ?kvs) ''issueKey'') @ ''/transitions''"
    using res by (rule conjunct1)
  then have a: "\<exists>r. callTool (answering ?data) ''jira_update_issue'' (JObj ?kvs) [] =
       (Inr (text_result (''Update results for PROJ-1:\<newline>\<newline>'' @ cross_mark
              @ '' Failed to change status: Transition '' @ [CHR 0x22] @ ''NonexistentStatus'' @ [CHR 0x22]
              @ '' not found. Use jira_get_transitions to see available options.\<newline>'')),
        [r])
     \<and> req_method r = GET
     \<and> req_url r = ''https://example.atlassian.net/rest/api/3/issue/PROJ-1/transitions''"
    by (simp add: answering_baseUrl transition_not_found_def nl_def)
  have m: "ascii_case_mapping (toLowerCase (answering ?data))"
    by (simp add: ascii_case_mapping_def answering_def)
  have l: "own_prop (hd ?ts) ''name'' = JStr ''Done'' \<and> is_ascii ''Done'' \<and> is_ascii ''NonexistentStatus''
      \<and> ascii_toLowerCase ''Done'' \<noteq> ascii_toLowerCase ''NonexistentStatus''
      \<and> own_prop (hd ?ts) ''id'' \<noteq> JStr ''NonexistentStatus''"
    by code_simp
  have b: "\<not> answers_to (answering ?data) ''NonexistentStatus'' (hd ?ts)"
    using res m l by blast
  show ?thesis
    using a b by simp
qed

text \<open>
  Claim C5. For every requested transition value (a non-empty string) and every remote
  list of named transitions, the value is resolved to the first transition of the list
  whose name equals it once both are mapped to lower case by the engine (whatever its
  case mapping is) or whose id equals it; when there is one, the second request of the
  call is the POST to the transitions of the issue, with the id of that transition in
  its body. With an engine whose case mapping is right on ASCII strings, an ASCII name
  that differs from an ASCII value only in the case of its letters answers to it.
\<close>

theorem update_transition_resolved:
  assumes "own_prop (JObj kvs) ''transition'' = JStr t" and "t \<noteq> []"
    and "\<And>r. axios srv log r = Inr data"
    and "own_prop data ''transitions'' = JArr ts"
    and "\<forall>x \<in> set ts. named_transition x"
  shows "array_find (transition_matches srv (JStr t)) ts =
           Inr (case find (answers_to srv t) ts of None \<Rightarrow> JUndefined | Some x \<Rightarrow> x)
     \<and> (\<forall>x. find (answers_to srv t) ts = Some x \<longrightarrow>
          (\<exists>r1 r2 rest. snd (callTool srv ''jira_update_issue'' (JObj kvs) log) = log @ [r1, r2] @ rest
            \<and> req_method r1 = GET
            \<and> req_method r2 = POST
            \<and> req_url r2 = baseUrl (config srv) @ ''/rest/api/3/issue/''
                             @ ToString (own_prop (JObj kvs) ''issueKey'') @ ''/transitions''
            \<and> req_data r2 = Some (JObj [(''transition'', JObj [(''id'', own_prop x ''id'')])])))
     \<and> (ascii_case_mapping (toLowerCase srv) \<longrightarrow>
          (\<forall>x n. own_prop x ''name'' = JStr n \<and> is_ascii n \<and> is_ascii t
                   \<and> ascii_toLowerCase n = ascii_toLowerCase t \<longrightarrow> answers_to srv t x))"
proof -
  let ?key = "own_prop (JObj kvs) ''issueKey''"
  let ?url = "baseUrl (config srv) @ ''/rest/api/3/issue/'' @ ToString ?key @ ''/transitions''"
  have c: "answers_to srv t x"
    if "ascii_case_mapping (toLowerCase srv)" and "own_prop x ''name'' = JStr n" and "is_ascii n"
      and "is_ascii t" and "ascii_toLowerCase n = ascii_toLowerCase t" for x n
    using that by (simp add: answers_to_def ascii_case_mapping_def del: own_prop.simps)
  have a: "array_find (transition_matches srv (JStr t)) ts =
           Inr (case find (answers_to srv t) ts of None \<Rightarrow> JUndefined | Some x \<Rightarrow> x)"
    using assms(5) by (rule array_find_is_find)
  have d: "\<not> nullish data"
    using assms(4) by (cases data) auto
  have b: "\<exists>r1 r2 rest. snd (callTool srv ''jira_update_issue'' (JObj kvs) log) = log @ [r1, r2] @ rest
            \<and> req_method r1 = GET \<and> req_method r2 = POST \<and> req_url r2 = ?url
            \<and> req_data r2 = Some (JObj [(''transition'', JObj [(''id'', own_prop x ''id'')])])"
    if x: "find (answers_to srv t) ts = Some x" for x
  proof -
    have f: "array_find (transition_matches srv (JStr t)) ts = Inr x"
      using a x by simp
    have "x \<in> set ts"
      using x by (auto simp add: find_Some_iff)
    then have tx: "truthy x"
      using assms(5) named_transition_cases by blast
    have "\<exists>r1 r2 res. change_status srv ?key (JStr t) log = (res, log @ [r1, r2])
          \<and> req_method r1 = GET \<and> req_method r2 = POST \<and> req_url r2 = ?url
          \<and> req_data r2 = Some (JObj [(''transition'', JObj [(''id'', own_prop x ''id'')])])"
      using assms(3,4) d f tx
      by (auto simp add: change_status_def makeJiraRequest_def no_options_def Let_def get_prop_def
          bind_def opt_find_def split: prod.splits sum.splits simp del: own_prop.simps)
    then obtain r1 r2 res where c:
      "change_status srv ?key (JStr t) log = (res, log @ [r1, r2])"
      "req_method r1 = GET" "req_method r2 = POST" "req_url r2 = ?url"
      "req_data r2 = Some (JObj [(''transition'', JObj [(''id'', own_prop x ''id'')])])"
      by blast
    have "\<exists>rest. snd (callTool srv ''jira_update_issue'' (JObj kvs) log) = log @ [r1, r2] @ rest"
      using assms(1,2) c(1)
      by (auto simp add: callTool_def dispatch_def updateIssue_def Let_def makeJiraRequest_def
          split: prod.splits sum.splits simp del: own_prop.simps)
    then show ?thesis using c(2-5) by blast
  qed
  show ?thesis using a b c by blast
qed

text \<open>The transition \<^verbatim>\<open>done\<close> against a remote transition named \<^verbatim>\<open>Done\<close> with id 31.\<close>

theorem update_transition_resolved_witness:
  "answers_to (answering (JObj [(''transitions'', JArr [JObj [(''id'', JStr ''31''), (''name'', JStr ''Done'')]])]))
     ''done'' (JObj [(''id'', JStr ''31''), (''name'', JStr ''Done'')])
   \<and> (\<exists>r1 r2 rest.
        snd (callTool (answering (JObj [(''transitions'', JArr [JObj [(''id'', JStr ''31''), (''name'', JStr ''Done'')]])]))
               ''jira_update_issue''
               (JObj [(''issueKey'', JStr ''PROJ-1''), (''transition'', JStr ''done'')]) []) = [r1, r2] @ rest
        \<and> req_method r1 = GET
        \<and> req_method r2 = POST
        \<and> req_url r2 = ''https://example.atlassian.net/rest/api/3/issue/PROJ-1/transitions''
        \<and> req_data r2 = Some (JObj [(''transition'', JObj [(''id'', JStr ''31'')])]))"
proof -
  let ?x = "JObj [(''id'', JStr ''31''), (''name'', JStr ''Done'')]"
  let ?data = "JObj [(''transitions'', JArr [?x])]"
  let ?kvs = "[(''issueKey'', JStr ''PROJ-1''), (''transition'', JStr ''done'')]"
  have h: "own_prop (JObj ?kvs) ''transition'' = JStr ''done''" "''done'' \<noteq> []"
    by simp_all
  have d: "own_prop ?data ''transitions'' = JArr [?x]"
    by simp
  have n: "\<forall>x \<in> set [?x]. named_transition x"
    by code_simp
  have m: "ascii_case_mapping (toLowerCase (answering ?data))"
    by (simp add: ascii_case_mapping_def answering_def)
  have l: "own_prop ?x ''name'' = JStr ''Done'' \<and> is_ascii ''Done'' \<and> is_ascii ''done''
      \<and> ascii_toLowerCase ''Done'' = ascii_toLowerCase ''done''"
    by code_simp
  note res = update_transition_resolved [of ?kvs "''done''" "answering ?data" "[]" ?data "[?x]",
        OF h answering_axios d n]
  have a: "answers_to (answering ?data) ''done'' ?x"
    using res m l by blast
  then have f: "find (answers_to (answering ?data) ''done'') [?x] = Some ?x"
    by simp
  show ?thesis
    using res f a by (simp add: answering_baseUrl)
qed

text \<open>
  Claim C10. When Update Issue is called with an issue key and each of the five optional
  arguments is absent or the empty string, no request is issued (the history of requests
  is unchanged) and the report ends with \<^verbatim>\<open>No updates requested\<close>.
\<close>

theorem update_nothing_requested:
  assumes "own_prop (JObj kvs) ''transition'' = JUndefined \<or> own_prop (JObj kvs) ''transition'' = JStr []"
    and "own_prop (JObj kvs) ''assignee'' = JUndefined \<or> own_prop (JObj kvs) ''assignee'' = JStr []"
    and "own_prop (JObj kvs) ''summary'' = JUndefined \<or> own_prop (JObj kvs) ''summary'' = JStr []"
    and "own_prop (JObj kvs) ''description'' = JUndefined \<or> own_prop (JObj kvs) ''description'' = JStr []"
    and "own_prop (JObj kvs) ''priority'' = JUndefined \<or> own_prop (JObj kvs) ''priority'' = JStr []"
  shows "callTool srv ''jira_update_issue'' (JObj kvs) log =
     (Inr (text_result (''Update results for '' @ ToString (own_prop (JObj kvs) ''issueKey'') @ '':'' @ [nl, nl]
            @ ''No updates requested'')),
      log)"
proof -
  have t: "\<not> truthy (own_prop (JObj kvs) ''transition'')" "\<not> truthy (own_prop (JObj kvs) ''assignee'')"
    "\<not> truthy (own_prop (JObj kvs) ''summary'')" "\<not> truthy (own_prop (JObj kvs) ''description'')"
    "\<not> truthy (own_prop (JObj kvs) ''priority'')"
    using assms by auto
  show ?thesis
    using t
    by (simp add: callTool_def dispatch_def updateIssue_def update_fields_def Let_def del: own_prop.simps)
qed

theorem update_nothing_requested_witness:
  "callTool (rejecting (Error ''unreachable'')) ''jira_update_issue''
     (JObj [(''issueKey'', JStr ''PROJ-1''), (''summary'', JStr ''''), (''transition'', JStr '''')]) [] =
     (Inr (text_result ''Update results for PROJ-1:\<newline>\<newline>No updates requested''), [])"
proof -
  let ?kvs = "[(''issueKey'', JStr ''PROJ-1''), (''summary'', JStr ''''), (''transition'', JStr '''')]"
  have h: "own_prop (JObj ?kvs) ''transition'' = JUndefined \<or> own_prop (JObj ?kvs) ''transition'' = JStr []"
    "own_prop (JObj ?kvs) ''assignee'' = JUndefined \<or> own_prop (JObj ?kvs) ''assignee'' = JStr []"
    "own_prop (JObj ?kvs) ''summary'' = JUndefined \<or> own_prop (JObj ?kvs) ''summary'' = JStr []"
    "own_prop (JObj ?kvs) ''description'' = JUndefined \<or> own_prop (JObj ?kvs) ''description'' = JStr []"
    "own_prop (JObj ?kvs) ''priority'' = JUndefined \<or> own_prop (JObj ?kvs) ''priority'' = JStr []"
    by simp_all
  show ?thesis
    using update_nothing_requested [of ?kvs "rejecting (Error ''unreachable'')" "[]", OF h]
    by (simp add: nl_def)
qed

section \<open>Create Issue (C6)\<close>

text \<open>
  Claim C6. When Create Issue is called with only the project key and the summary (no
  description, issue type, priority, assignee or labels), the call issues one request, a
  POST of \<^verbatim>\<open>/issue\<close>, whose body has exactly three fields: the project with the
  given key, the summary, and the issue type named \<^verbatim>\<open>Task\<close>.
\<close>

theorem create_minimal_body:
  assumes "own_prop (JObj kvs) ''description'' = JUndefined"
    and "own_prop (JObj kvs) ''issueType'' = JUndefined"
    and "own_prop (JObj kvs) ''priority'' = JUndefined"
    and "own_prop (JObj kvs) ''assignee'' = JUndefined"
    and "own_prop (JObj kvs) ''labels'' = JUndefined"
  shows "\<exists>r. snd (callTool srv ''jira_create_issue'' (JObj kvs) log) = log @ [r]
     \<and> req_method r = POST
     \<and> req_url r = baseUrl (config srv) @ ''/rest/api/3/issue''
     \<and> req_params r = None
     \<and> req_data r = Some (JObj [(''fields'', JObj
           [(''project'', JObj [(''key'', own_prop (JObj kvs) ''projectKey'')]),
            (''summary'', own_prop (JObj kvs) ''summary''),
            (''issuetype'', JObj [(''name'', JStr ''Task'')])])])"
  using assms
  by (simp add: callTool_def dispatch_def createIssue_def create_fields_def labels_given_def
      makeJiraRequest_def Let_def split: prod.splits sum.splits del: own_prop.simps)

theorem create_minimal_body_witness:
  "\<exists>r. snd (callTool (answering (JObj [(''key'', JStr ''PROJ-7'')])) ''jira_create_issue''
            (JObj [(''projectKey'', JStr ''PROJ''), (''summary'', JStr ''Fix login'')]) []) = [r]
     \<and> req_method r = POST
     \<and> req_url r = ''https://example.atlassian.net/rest/api/3/issue''
     \<and> req_params r = None
     \<and> req_data r = Some (JObj [(''fields'', JObj
           [(''project'', JObj [(''key'', JStr ''PROJ'')]),
            (''summary'', JStr ''Fix login''),
            (''issuetype'', JObj [(''name'', JStr ''Task'')])])])"
proof -
  let ?kvs = "[(''projectKey'', JStr ''PROJ''), (''summary'', JStr ''Fix login'')]"
  have h: "own_prop (JObj ?kvs) ''description'' = JUndefined" "own_prop (JObj ?kvs) ''issueType'' = JUndefined"
    "own_prop (JObj ?kvs) ''priority'' = JUndefined" "own_prop (JObj ?kvs) ''assignee'' = JUndefined"
    "own_prop (JObj ?kvs) ''labels'' = JUndefined"
    by simp_all
  show ?thesis
    using create_minimal_body [of ?kvs "answering (JObj [(''key'', JStr ''PROJ-7'')])" "[]", OF h]
    by (simp add: answering_baseUrl)
qed


end
